theory Spec2Isabelle
  imports Main "HOL-Library.AList" "HOL-Library.Sublist" "HOL-Library.Log_Nat"
begin

section \<open>The runtime objects a session works with\<close>

text \<open>
  The core of the repository is \<open>src/utils/ssh.ts\<close>, the file of the classes
  \<open>SSHConnection\<close> and \<open>SSHConnectionPool\<close>. The event loop runs every callback
  of that file to completion, so each callback is one state transformer here. An
  asynchronous method runs in segments: from its call to its first \<open>await\<close>, and from
  the answer it waited for to the next. Each segment is a state transformer
  (\<open>connect_begin\<close>, \<open>connect_resume\<close>, the listeners of a client,
  \<open>exec_begin\<close>, the callback of \<open>client.exec\<close>), and between two segments of
  one call anything else may happen to the session: see \<open>step\<close> below. The
  functions \<open>connect\<close>, \<open>exec\<close> and \<open>get\<close> compose the segments of one
  call with the answers of the environment it waits for (the file system, the transport,
  the clock), which are arguments of the definition: they are the call when nothing else
  happens to the session while it waits.

  A JavaScript \<open>Error\<close> is kept as its message. Numbers are integers: the
  timestamps, the timeouts and the exit codes of this program are whole numbers.
\<close>

datatype js_error = JsError string

record SSHConnectionConfig =
  host :: string
  port :: int
  username :: string
  privateKeyPath :: "string option"
  password :: "string option"
  keepaliveInterval :: "int option"
  keepaliveCountMax :: "int option"
  readyTimeout :: "int option"

text \<open>The object \<open>cfg\<close> handed to \<open>client.connect\<close>.\<close>

record connect_options =
  opt_host :: string
  opt_port :: int
  opt_username :: string
  opt_keepaliveInterval :: int
  opt_keepaliveCountMax :: int
  opt_readyTimeout :: int
  opt_privateKey :: "string option"
  opt_password :: "string option"

text \<open>
  Truthiness of an optional string (\<open>undefined\<close> and the empty string are falsy) and
  \<open>x || d\<close> on an optional number (\<open>undefined\<close> and \<open>0\<close> are falsy).
\<close>

fun truthy :: "string option \<Rightarrow> bool" where
  "truthy None = False"
| "truthy (Some s) = (s \<noteq> [])"

fun or_default :: "int option \<Rightarrow> int \<Rightarrow> int" where
  "or_default None d = d"
| "or_default (Some v) d = (if v = 0 then d else v)"

text \<open>
  The events of an ssh2 \<open>Client\<close> this program subscribes to, and the five listeners
  it registers: the three long-lived ones of \<open>connect\<close> (on error, end and close)
  and the two one-shot ones of the promise \<open>connect\<close> returns.
\<close>

datatype event = EvError | EvEnd | EvClose | EvReady

datatype listener = LostError | LostEnd | LostClose | OnReady | OnError

text \<open>
  A \<open>Client\<close> object: its listeners in registration order, the options of the one
  \<open>client.connect(cfg)\<close> call made on it (the opening of the transport, \<open>None\<close>
  before), whether \<open>client.end()\<close> was called, and the state of the promise that
  \<open>connect\<close> built around it (\<open>None\<close> while it is not settled). The call of
  \<open>connect\<close> that built the client has the client and the options \<open>cfg\<close>
  as local variables; while that call waits for the key file, \<open>reading\<close> holds
  the options it has built so far.
\<close>

record client_obj =
  listeners :: "(event \<times> listener) list"
  opened :: "connect_options option"
  ended :: bool
  settled :: "(js_error + unit) option"
  reading :: "connect_options option"

text \<open>A timer of the event loop: what it runs, its delay, and whether it is still to fire.\<close>

datatype timer_callback = Reconnect | ExecTimeout nat

record timeout_obj =
  delay :: int
  callback :: timer_callback
  pending :: bool

text \<open>
  A \<open>Buffer\<close> is its bytes, and a JavaScript string that is built from the bytes of
  a command is its UTF-16 code units. The strings that the program itself writes (its
  messages, the commands) are ASCII and kept as HOL strings.
\<close>

type_synonym buffer = "int list"

type_synonym js_string = "int list"

record exec_result =
  "output" :: js_string
  exitCode :: int

text \<open>
  One command channel: the stream \<open>client.exec\<close> hands to its callback, together with
  the command and the variables of that \<open>exec\<close> call (\<open>out\<close>, \<open>errOut\<close>, \<open>timer\<close>,
  \<open>timeout\<close>) and the promise of the call.
\<close>

record channel =
  command :: string
  out :: js_string
  errOut :: js_string
  timer :: nat
  timeoutMs :: int
  closeCalled :: bool
  outcome :: "(js_error + exec_result) option"

text \<open>
  An \<open>SSHConnection\<close> object with its six fields, and the runtime objects that only this
  session creates and refers to: its \<open>Client\<close> objects, its timers and its channels.
  A handle is the index of the object in its list.
\<close>

record SSHConnection =
  client :: "nat option"
  config :: SSHConnectionConfig
  isConnected :: bool
  reconnectTimer :: "nat option"
  lastActivity :: int
  commandTimeout :: int
  clients :: "client_obj list"
  timers :: "timeout_obj list"
  channels :: "channel list"

text \<open>Updating the object behind a handle; a handle that names no object changes nothing.\<close>

definition upd :: "nat \<Rightarrow> ('a \<Rightarrow> 'a) \<Rightarrow> 'a list \<Rightarrow> 'a list" where
  "upd i f xs = (if i < length xs then xs[i := f (xs ! i)] else xs)"

text \<open>A promise settles once: a later \<open>resolve\<close> or \<open>reject\<close> is ignored.\<close>

fun settle :: "'a \<Rightarrow> 'a option \<Rightarrow> 'a option" where
  "settle r None = Some r"
| "settle r (Some x) = Some x"

section \<open>SSHConnection\<close>

text \<open>
  The constructor. \<open>commandTimeout\<close> defaults to 60000; \<open>lastActivity\<close> is
  initialised with \<open>Date.now()\<close>, here \<open>now\<close>. Then the timers of the event
  loop (\<open>setTimeout\<close> returns the new timer, \<open>clearTimeout\<close> makes a timer
  not pending) and \<open>scheduleReconnect\<close>.
\<close>

definition new_SSHConnection :: "SSHConnectionConfig \<Rightarrow> int option \<Rightarrow> int \<Rightarrow> SSHConnection" where
  "new_SSHConnection cfg tmo now =
     \<lparr>client = None, config = cfg, isConnected = False, reconnectTimer = None,
      lastActivity = now,
      commandTimeout = (case tmo of None \<Rightarrow> 60000 | Some t \<Rightarrow> t),
      clients = [], timers = [], channels = []\<rparr>"

definition setTimeout :: "timer_callback \<Rightarrow> int \<Rightarrow> SSHConnection \<Rightarrow> nat \<times> SSHConnection" where
  "setTimeout cb d s =
     (length (timers s), s\<lparr>timers := timers s @ [\<lparr>delay = d, callback = cb, pending = True\<rparr>]\<rparr>)"

definition clearTimeout :: "nat \<Rightarrow> SSHConnection \<Rightarrow> SSHConnection" where
  "clearTimeout t s = s\<lparr>timers := upd t (\<lambda>x. x\<lparr>pending := False\<rparr>) (timers s)\<rparr>"

definition scheduleReconnect :: "int \<Rightarrow> SSHConnection \<Rightarrow> SSHConnection" where
  "scheduleReconnect now s =
     (let s1 = (case reconnectTimer s of Some t \<Rightarrow> clearTimeout t s | None \<Rightarrow> s);
          idle = now - lastActivity s1
      in if idle < 30 * 60 * 1000
         then (case setTimeout Reconnect 5000 s1 of (t, s2) \<Rightarrow> s2\<lparr>reconnectTimer := Some t\<rparr>)
         else s1)"

text \<open>
  The operations of a \<open>Client\<close> that the session uses. Each listener is registered
  at most once on a client, so \<open>removeListener\<close> removes the one registration.
\<close>

definition removeAllListeners :: "nat \<Rightarrow> SSHConnection \<Rightarrow> SSHConnection" where
  "removeAllListeners c s = s\<lparr>clients := upd c (\<lambda>x. x\<lparr>listeners := []\<rparr>) (clients s)\<rparr>"

definition removeListener :: "nat \<Rightarrow> event \<Rightarrow> listener \<Rightarrow> SSHConnection \<Rightarrow> SSHConnection" where
  "removeListener c ev l s =
     s\<lparr>clients := upd c (\<lambda>x. x\<lparr>listeners := remove1 (ev, l) (listeners x)\<rparr>) (clients s)\<rparr>"

definition addListener :: "nat \<Rightarrow> event \<Rightarrow> listener \<Rightarrow> SSHConnection \<Rightarrow> SSHConnection" where
  "addListener c ev l s =
     s\<lparr>clients := upd c (\<lambda>x. x\<lparr>listeners := listeners x @ [(ev, l)]\<rparr>) (clients s)\<rparr>"

definition end_client :: "nat \<Rightarrow> SSHConnection \<Rightarrow> SSHConnection" where
  "end_client c s = s\<lparr>clients := upd c (\<lambda>x. x\<lparr>ended := True\<rparr>) (clients s)\<rparr>"

definition settle_connect :: "nat \<Rightarrow> js_error + unit \<Rightarrow> SSHConnection \<Rightarrow> SSHConnection" where
  "settle_connect c r s = s\<lparr>clients := upd c (\<lambda>x. x\<lparr>settled := settle r (settled x)\<rparr>) (clients s)\<rparr>"

text \<open>
  The bodies of the five listeners, for the client \<open>c\<close> they are registered on.
  \<open>cleanup\<close> takes the two one-shot listeners off \<open>c\<close>. The long-lived error
  listener also writes a line to the console, which is no part of the state.
\<close>

definition cleanup :: "nat \<Rightarrow> SSHConnection \<Rightarrow> SSHConnection" where
  "cleanup c s = removeListener c EvError OnError (removeListener c EvReady OnReady s)"

fun run_listener :: "listener \<Rightarrow> nat \<Rightarrow> js_error \<Rightarrow> int \<Rightarrow> SSHConnection \<Rightarrow> SSHConnection" where
  "run_listener LostError c err now s = scheduleReconnect now (s\<lparr>isConnected := False\<rparr>)"
| "run_listener LostEnd c err now s = scheduleReconnect now (s\<lparr>isConnected := False\<rparr>)"
| "run_listener LostClose c err now s = scheduleReconnect now (s\<lparr>isConnected := False\<rparr>)"
| "run_listener OnReady c err now s =
     settle_connect c (Inr ()) ((cleanup c s)\<lparr>isConnected := True, lastActivity := now\<rparr>)"
| "run_listener OnError c err now s = settle_connect c (Inl err) (cleanup c s)"

text \<open>
  \<open>emit\<close>: the transport \<open>c\<close> emits \<open>ev\<close> (with the error \<open>err\<close>
  when \<open>ev\<close> is the error event) at time \<open>now\<close>. The listeners registered for
  \<open>ev\<close> at that moment run in registration order; a listener registered with
  \<open>once\<close> is taken off before its body runs. With no listener registered the state
  is left as it is; for the error event Node then throws the error out of the emitting
  code (\<open>uncaught\<close>), which is no code of the session.
\<close>

fun is_once :: "listener \<Rightarrow> bool" where
  "is_once OnReady = True"
| "is_once OnError = True"
| "is_once l = False"

definition invoke :: "nat \<Rightarrow> event \<Rightarrow> js_error \<Rightarrow> int \<Rightarrow> listener \<Rightarrow> SSHConnection \<Rightarrow> SSHConnection" where
  "invoke c ev err now l s =
     run_listener l c err now (if is_once l then removeListener c ev l s else s)"

definition listeners_for :: "nat \<Rightarrow> event \<Rightarrow> SSHConnection \<Rightarrow> listener list" where
  "listeners_for c ev s =
     (if c < length (clients s)
      then map snd (filter (\<lambda>p. fst p = ev) (listeners (clients s ! c)))
      else [])"

definition emit :: "nat \<Rightarrow> event \<Rightarrow> js_error \<Rightarrow> int \<Rightarrow> SSHConnection \<Rightarrow> SSHConnection" where
  "emit c ev err now s = fold (invoke c ev err now) (listeners_for c ev s) s"

definition uncaught :: "nat \<Rightarrow> event \<Rightarrow> SSHConnection \<Rightarrow> bool" where
  "uncaught c ev s = (ev = EvError \<and> listeners_for c ev s = [])"

text \<open>
  \<open>connect\<close>, from the call to its first wait (\<open>connect_begin\<close>). It returns
  at once when the session is connected; otherwise it detaches and ends the previous
  client, builds a new one with the three long-lived listeners, and resolves the
  credential. When \<open>privateKeyPath\<close> is truthy the call waits for the file
  system (\<open>await fs.readFile\<close>): the one-shot listeners are not registered yet and
  the transport is not opened. Else, when the password is truthy, the promise executor
  registers the two one-shot listeners and opens the transport, and the call waits for the
  transport. Else the call throws.
\<close>

datatype begun = Finished "js_error + unit" | Reading nat | Opened nat

definition new_Client :: client_obj where
  "new_Client = \<lparr>listeners = [], opened = None, ended = False, settled = None, reading = None\<rparr>"

fun get_str :: "string option \<Rightarrow> string" where
  "get_str None = []"
| "get_str (Some s) = s"

definition open_transport :: "nat \<Rightarrow> connect_options \<Rightarrow> SSHConnection \<Rightarrow> SSHConnection" where
  "open_transport c cfg s = s\<lparr>clients := upd c (\<lambda>x. x\<lparr>opened := Some cfg\<rparr>) (clients s)\<rparr>"

definition promise_executor :: "nat \<Rightarrow> connect_options \<Rightarrow> SSHConnection \<Rightarrow> SSHConnection" where
  "promise_executor c cfg s =
     open_transport c cfg (addListener c EvError OnError (addListener c EvReady OnReady s))"

definition detach_previous :: "SSHConnection \<Rightarrow> SSHConnection" where
  "detach_previous s =
     (case client s of
        Some c0 \<Rightarrow> end_client c0 (removeAllListeners c0 s)
      | None \<Rightarrow> s)"

definition set_reading :: "nat \<Rightarrow> connect_options option \<Rightarrow> SSHConnection \<Rightarrow> SSHConnection" where
  "set_reading c r s = s\<lparr>clients := upd c (\<lambda>x. x\<lparr>reading := r\<rparr>) (clients s)\<rparr>"

definition connect_begin :: "SSHConnection \<Rightarrow> begun \<times> SSHConnection" where
  "connect_begin s =
     (if isConnected s then (Finished (Inr ()), s)
      else
        let s1 = detach_previous s;
            c = length (clients s1);
            s2 = s1\<lparr>clients := clients s1 @ [new_Client], client := Some c\<rparr>;
            s3 = addListener c EvClose LostClose
                   (addListener c EvEnd LostEnd (addListener c EvError LostError s2));
            cfg = \<lparr>opt_host = host (config s3), opt_port = port (config s3),
                   opt_username = username (config s3),
                   opt_keepaliveInterval = or_default (keepaliveInterval (config s3)) 10000,
                   opt_keepaliveCountMax = or_default (keepaliveCountMax (config s3)) 3,
                   opt_readyTimeout = or_default (readyTimeout (config s3)) 20000,
                   opt_privateKey = None, opt_password = None\<rparr>
        in if truthy (privateKeyPath (config s3)) then (Reading c, set_reading c (Some cfg) s3)
           else if truthy (password (config s3)) then
             (Opened c, promise_executor c (cfg\<lparr>opt_password := password (config s3)\<rparr>) s3)
           else (Finished (Inl (JsError ''No auth method: need password or privateKeyPath'')), s3))"

text \<open>
  The call that built the client \<open>c\<close> goes on when the file system answers
  (\<open>connect_resume\<close>): with an error the call rejects with it; with the key the
  promise executor registers the two one-shot listeners on \<open>c\<close>, the client the
  call built, and opens its transport, whatever has happened to the session and to
  \<open>c\<close> in the meantime. Nothing goes on for a client whose call does not wait for
  the file system.
\<close>

definition connect_resume :: "nat \<Rightarrow> js_error + string \<Rightarrow> SSHConnection \<Rightarrow> SSHConnection" where
  "connect_resume c r s =
     (if c < length (clients s) then
        (case reading (clients s ! c) of
           None \<Rightarrow> s
         | Some cfg \<Rightarrow>
             (case r of
                Inl e \<Rightarrow> set_reading c None s
              | Inr key \<Rightarrow>
                  promise_executor c (cfg\<lparr>opt_privateKey := Some key\<rparr>) (set_reading c None s)))
      else s)"

text \<open>
  \<open>connect_start\<close> is the call up to the wait for the transport when nothing
  happens to the session while the key file is read; the answer of the file system is
  \<open>readFile\<close>.
\<close>

datatype started = Returned "js_error + unit" | Waiting nat

definition connect_start :: "(string \<Rightarrow> js_error + string) \<Rightarrow> SSHConnection \<Rightarrow> started \<times> SSHConnection" where
  "connect_start readFile s =
     (case connect_begin s of
        (Finished r, s1) \<Rightarrow> (Returned r, s1)
      | (Opened c, s1) \<Rightarrow> (Waiting c, s1)
      | (Reading c, s1) \<Rightarrow>
          (case readFile (get_str (privateKeyPath (config s1))) of
             Inl e \<Rightarrow> (Returned (Inl e), connect_resume c (Inl e) s1)
           | Inr key \<Rightarrow> (Waiting c, connect_resume c (Inr key) s1)))"

text \<open>
  The whole call, when nothing else happens to the session while it waits: after the
  transport is opened it answers with \<open>ready\<close> or with an error, at time
  \<open>reply_at\<close>; the result of the call is the state of its promise (\<open>None\<close>:
  not settled).
\<close>

datatype transport_reply = Ready | Failure js_error

record connect_env =
  readFile :: "string \<Rightarrow> js_error + string"
  reply :: transport_reply
  reply_at :: int

definition settled_of :: "nat \<Rightarrow> SSHConnection \<Rightarrow> (js_error + unit) option" where
  "settled_of c s = (if c < length (clients s) then settled (clients s ! c) else None)"

definition transport_replies :: "nat \<Rightarrow> transport_reply \<Rightarrow> int \<Rightarrow> SSHConnection \<Rightarrow> SSHConnection" where
  "transport_replies c r now s =
     (case r of Ready \<Rightarrow> emit c EvReady (JsError []) now s
              | Failure e \<Rightarrow> emit c EvError e now s)"

definition connect :: "connect_env \<Rightarrow> SSHConnection \<Rightarrow> (js_error + unit) option \<times> SSHConnection" where
  "connect env s =
     (case connect_start (readFile env) s of
        (Returned r, s1) \<Rightarrow> (Some r, s1)
      | (Waiting c, s1) \<Rightarrow>
          (let s2 = transport_replies c (reply env) (reply_at env) s1
           in (settled_of c s2, s2)))"

definition disconnect :: "SSHConnection \<Rightarrow> SSHConnection" where
  "disconnect s =
     (let s1 = (case reconnectTimer s of
                  Some t \<Rightarrow> (clearTimeout t s)\<lparr>reconnectTimer := None\<rparr>
                | None \<Rightarrow> s);
          s2 = (case client s1 of
                  Some c \<Rightarrow> (end_client c (removeAllListeners c s1))\<lparr>client := None\<rparr>
                | None \<Rightarrow> s1)
      in s2\<lparr>isConnected := False\<rparr>)"

definition isActive :: "SSHConnection \<Rightarrow> bool" where
  "isActive s = (isConnected s \<and> client s \<noteq> None)"

subsection \<open>Text of the runtime\<close>

text \<open>
  \<open>d.toString()\<close> on a \<open>Buffer\<close> decodes its bytes as UTF-8, each maximal
  ill-formed part giving one U+FFFD: the decoder reads a lead byte, then as many
  continuation bytes as the lead byte asks for, each within the bounds that exclude
  overlong forms, surrogates and code points above U+10FFFF; a byte outside the bounds
  ends the sequence with U+FFFD and is read again as a lead byte, and the end of the buffer
  inside a sequence gives U+FFFD. No byte order mark is removed. A code point above U+FFFF
  is two code units of the string.
\<close>

record utf8_state =
  needed :: nat
  seen :: nat
  code_point :: int
  lower :: int
  upper :: int

definition utf8_initial :: utf8_state where
  "utf8_initial = \<lparr>needed = 0, seen = 0, code_point = 0, lower = 0x80, upper = 0xBF\<rparr>"

definition utf8_lead :: "int \<Rightarrow> int list \<times> utf8_state" where
  "utf8_lead b =
     (if b \<le> 0x7F then ([b], utf8_initial)
      else if 0xC2 \<le> b \<and> b \<le> 0xDF then ([], utf8_initial\<lparr>needed := 1, code_point := b mod 32\<rparr>)
      else if 0xE0 \<le> b \<and> b \<le> 0xEF then
        ([], utf8_initial\<lparr>needed := 2, code_point := b mod 16,
               lower := (if b = 0xE0 then 0xA0 else 0x80),
               upper := (if b = 0xED then 0x9F else 0xBF)\<rparr>)
      else if 0xF0 \<le> b \<and> b \<le> 0xF4 then
        ([], utf8_initial\<lparr>needed := 3, code_point := b mod 8,
               lower := (if b = 0xF0 then 0x90 else 0x80),
               upper := (if b = 0xF4 then 0x8F else 0xBF)\<rparr>)
      else ([0xFFFD], utf8_initial))"

definition utf8_step :: "utf8_state \<Rightarrow> int \<Rightarrow> int list \<times> utf8_state" where
  "utf8_step st b =
     (if needed st = 0 then utf8_lead b
      else if b < lower st \<or> upper st < b then
        (case utf8_lead b of (cps, st') \<Rightarrow> (0xFFFD # cps, st'))
      else
        (let cp = code_point st * 64 + b mod 64
         in if seen st + 1 = needed st then ([cp], utf8_initial)
            else ([], st\<lparr>seen := seen st + 1, code_point := cp, lower := 0x80, upper := 0xBF\<rparr>)))"

fun utf8_run :: "utf8_state \<Rightarrow> int list \<Rightarrow> int list" where
  "utf8_run st [] = (if needed st = 0 then [] else [0xFFFD])"
| "utf8_run st (b # bs) = (case utf8_step st b of (cps, st') \<Rightarrow> cps @ utf8_run st' bs)"

definition utf16 :: "int \<Rightarrow> int list" where
  "utf16 cp =
     (if cp < 0x10000 then [cp]
      else [0xD800 + (cp - 0x10000) div 0x400, 0xDC00 + (cp - 0x10000) mod 0x400])"

definition toString :: "buffer \<Rightarrow> js_string" where
  "toString d = concat (map utf16 (utf8_run utf8_initial d))"

text \<open>
  A number in a template literal is printed as \<open>Number::toString\<close> prints it. The
  number held is the double nearest to the integer (\<open>round_double\<close>: 53 bits, ties
  to even). Up to \<open>2^53\<close> in size that is the integer itself, printed in decimal.
  Above, the digits printed are the shortest decimal \<open>s\<close> that, followed by zeros,
  still rounds to the number (the closest such \<open>s\<close> if there are two); the number
  is written out in full when it has at most 21 digits, and with an exponent otherwise.
  From \<open>2^1024\<close> on the number is \<open>Infinity\<close>.
\<close>

fun digits :: "nat \<Rightarrow> string" where
  "digits n = (if n < 10 then [char_of (48 + n)] else digits (n div 10) @ [char_of (48 + n mod 10)])"

definition round_double :: "nat \<Rightarrow> nat" where
  "round_double m =
     (let e = floorlog 2 m - 53;
          q = m div 2 ^ e;
          r = m mod 2 ^ e
      in if 2 * r < 2 ^ e \<or> (2 * r = 2 ^ e \<and> even q) then q * 2 ^ e else (q + 1) * 2 ^ e)"

definition candidates :: "nat \<Rightarrow> nat \<Rightarrow> (nat \<times> nat) list" where
  "candidates x k =
     (let scale = 10 ^ (floorlog 10 x - k);
          lo = x div scale;
          ok = filter (\<lambda>s. round_double (s * scale) = x) [lo, lo + 1]
      in case ok of
           [] \<Rightarrow> []
         | [s] \<Rightarrow> [(s, scale)]
         | s # s' # rest \<Rightarrow>
             (if x - s * scale < s' * scale - x \<or> (x - s * scale = s' * scale - x \<and> even s)
              then [(s, scale)] else [(s', scale)]))"

definition shortest :: "nat \<Rightarrow> nat \<times> nat" where
  "shortest x =
     (case concat (map (candidates x) [1..<Suc (floorlog 10 x)]) of
        [] \<Rightarrow> (x, 1)
      | c # cs \<Rightarrow> c)"

definition strip_zeros :: "string \<Rightarrow> string" where
  "strip_zeros ds = rev (dropWhile (\<lambda>c. c = CHR ''0'') (rev ds))"

definition number_digits :: "nat \<Rightarrow> string" where
  "number_digits x =
     (case shortest x of (s, scale) \<Rightarrow>
        (let ds = digits (s * scale); n = length ds; sig = strip_zeros ds
         in if n \<le> 21 then ds
            else if length sig = 1 then sig @ ''e+'' @ digits (n - 1)
            else hd sig # CHR ''.'' # tl sig @ ''e+'' @ digits (n - 1)))"

definition number_text :: "int \<Rightarrow> string" where
  "number_text i =
     (let m = nat \<bar>i\<bar>;
          body = (if m \<le> 2 ^ 53 then digits m
                  else if 2 ^ 1024 \<le> round_double m then ''Infinity''
                  else number_digits (round_double m))
      in if i < 0 then CHR ''-'' # body else body)"

subsection \<open>exec\<close>

text \<open>
  The callback of \<open>client.exec\<close> when it is given a stream: it starts the timeout timer
  with the \<open>timeout\<close> of the call and subscribes to the stream. The new channel is
  returned with the state.
\<close>

definition exec_callback :: "string \<Rightarrow> int \<Rightarrow> SSHConnection \<Rightarrow> nat \<times> SSHConnection" where
  "exec_callback cmd tmo s =
     (let ch = length (channels s)
      in case setTimeout (ExecTimeout ch) tmo s of
           (t, s1) \<Rightarrow>
             (ch, s1\<lparr>channels := channels s1 @
                  [\<lparr>command = cmd, out = [], errOut = [], timer = t, timeoutMs = tmo,
                    closeCalled = False, outcome = None\<rparr>]\<rparr>))"

definition settle_exec :: "nat \<Rightarrow> js_error + exec_result \<Rightarrow> SSHConnection \<Rightarrow> SSHConnection" where
  "settle_exec ch r s = s\<lparr>channels := upd ch (\<lambda>x. x\<lparr>outcome := settle r (outcome x)\<rparr>) (channels s)\<rparr>"

text \<open>
  The listeners of the stream: data, data of the error stream, and close. A data listener
  is given one \<open>Buffer\<close> and appends its \<open>toString()\<close>.
\<close>

definition on_data :: "nat \<Rightarrow> buffer \<Rightarrow> SSHConnection \<Rightarrow> SSHConnection" where
  "on_data ch d s = s\<lparr>channels := upd ch (\<lambda>x. x\<lparr>out := out x @ toString d\<rparr>) (channels s)\<rparr>"

definition on_stderr_data :: "nat \<Rightarrow> buffer \<Rightarrow> SSHConnection \<Rightarrow> SSHConnection" where
  "on_stderr_data ch d s =
     s\<lparr>channels := upd ch (\<lambda>x. x\<lparr>errOut := errOut x @ toString d\<rparr>) (channels s)\<rparr>"

definition on_close :: "nat \<Rightarrow> int option \<Rightarrow> int \<Rightarrow> SSHConnection \<Rightarrow> SSHConnection" where
  "on_close ch code now s =
     (if ch < length (channels s) then
        (let x = channels s ! ch;
             s1 = clearTimeout (timer x) s;
             s2 = s1\<lparr>lastActivity := now\<rparr>
         in settle_exec ch
              (Inr \<lparr>output = (if out x \<noteq> [] then out x else errOut x),
                    exitCode = or_default code 0\<rparr>) s2)
      else s)"

text \<open>The callback of the timeout timer of channel \<open>ch\<close>.\<close>

definition on_timeout :: "nat \<Rightarrow> SSHConnection \<Rightarrow> SSHConnection" where
  "on_timeout ch s =
     (if ch < length (channels s) then
        (let x = channels s ! ch;
             s1 = s\<lparr>channels := upd ch (\<lambda>y. y\<lparr>closeCalled := True\<rparr>) (channels s)\<rparr>
         in settle_exec ch
              (Inl (JsError (''Command timed out after '' @ number_text (timeoutMs x) @ ''ms''))) s1)
      else s)"

text \<open>
  A timer fires if it is still pending, and then is pending no more. The callback of the
  reconnect timer is \<open>this.connect().catch(() => {})\<close>: \<open>catch_ignore\<close> is the
  promise that \<open>catch\<close> returns for the empty handler, which resolves when the
  promise of \<open>connect\<close> rejects. With its state, a callback gives the rejection that it
  leaves unhandled, if any (\<open>unhandled\<close> of the promise it drops). \<open>fire\<close> is
  the firing together with all that the \<open>connect\<close> of the callback waits for;
  \<open>fire_begin\<close> is the firing up to the first wait.
\<close>

definition catch_ignore :: "(js_error + unit) option \<Rightarrow> (js_error + unit) option" where
  "catch_ignore p = (case p of Some (Inl e) \<Rightarrow> Some (Inr ()) | _ \<Rightarrow> p)"

definition unhandled :: "(js_error + unit) option \<Rightarrow> js_error option" where
  "unhandled p = (case p of Some (Inl e) \<Rightarrow> Some e | _ \<Rightarrow> None)"

fun run_callback :: "timer_callback \<Rightarrow> connect_env \<Rightarrow> SSHConnection \<Rightarrow> js_error option \<times> SSHConnection" where
  "run_callback Reconnect env s = (unhandled (catch_ignore (fst (connect env s))), snd (connect env s))"
| "run_callback (ExecTimeout ch) env s = (None, on_timeout ch s)"

definition is_pending :: "nat \<Rightarrow> SSHConnection \<Rightarrow> bool" where
  "is_pending t s = (t < length (timers s) \<and> pending (timers s ! t))"

definition fire :: "nat \<Rightarrow> connect_env \<Rightarrow> SSHConnection \<Rightarrow> js_error option \<times> SSHConnection" where
  "fire t env s =
     (if is_pending t s
      then run_callback (callback (timers s ! t)) env (clearTimeout t s)
      else (None, s))"

fun begin_callback :: "timer_callback \<Rightarrow> SSHConnection \<Rightarrow> SSHConnection" where
  "begin_callback Reconnect s = snd (connect_begin s)"
| "begin_callback (ExecTimeout ch) s = on_timeout ch s"

definition fire_begin :: "nat \<Rightarrow> SSHConnection \<Rightarrow> SSHConnection" where
  "fire_begin t s =
     (if is_pending t s
      then begin_callback (callback (timers s ! t)) (clearTimeout t s)
      else s)"

text \<open>
  What happens on a channel after it is opened, as the environment decides it: data on
  either stream, the close of the channel with the exit code the transport reports (or
  none), or the timeout timer of the channel firing.
\<close>

datatype stream_event = Data buffer | StderrData buffer | Close "int option" int | TimerFired

fun stream_step :: "nat \<Rightarrow> stream_event \<Rightarrow> SSHConnection \<Rightarrow> SSHConnection" where
  "stream_step ch (Data d) s = on_data ch d s"
| "stream_step ch (StderrData d) s = on_stderr_data ch d s"
| "stream_step ch (Close code now) s = on_close ch code now s"
| "stream_step ch TimerFired s =
     (if ch < length (channels s) \<and> is_pending (timer (channels s ! ch)) s
      then on_timeout ch (clearTimeout (timer (channels s ! ch)) s)
      else s)"

definition run_stream :: "nat \<Rightarrow> stream_event list \<Rightarrow> SSHConnection \<Rightarrow> SSHConnection" where
  "run_stream ch evs s = fold (stream_step ch) evs s"

definition outcome_of :: "nat \<Rightarrow> SSHConnection \<Rightarrow> (js_error + exec_result) option" where
  "outcome_of ch s = (if ch < length (channels s) then outcome (channels s ! ch) else None)"

text \<open>
  The whole call. The environment gives the time of the call, the answers to the
  \<open>connect\<close> it may make, whether \<open>client.exec\<close> gives an error (to its
  callback, or by throwing) or a stream, and what then happens on the stream.
  \<open>exec_open\<close> is the call up to the opening of the channel: it refreshes
  \<open>lastActivity\<close>, connects if the session is not connected or has no client, and
  opens the channel; it ends with the error the call rejects with, or with the channel.
  Calling \<open>exec\<close> on the null client, which the non-null assertion of the source does
  not prevent, throws a \<open>TypeError\<close> inside the promise executor. The result of
  \<open>exec\<close> is the state of the promise of the call (\<open>None\<close>: not settled).
  These definitions are the call when nothing else happens to the session while it waits.
\<close>

record exec_env =
  called_at :: int
  connecting :: connect_env
  channel_error :: "js_error option"
  stream :: "stream_event list"

definition ensure_connected :: "exec_env \<Rightarrow> SSHConnection \<Rightarrow> (js_error + unit) option \<times> SSHConnection" where
  "ensure_connected env s =
     (if \<not> isConnected s \<or> client s = None then connect (connecting env) s
      else (Some (Inr ()), s))"

definition null_exec_message :: string where
  "null_exec_message =
     ''Cannot read properties of null (reading '' @ [CHR 0x27] @ ''exec'' @ [CHR 0x27] @ '')''"

definition open_channel :: "string \<Rightarrow> exec_env \<Rightarrow> SSHConnection \<Rightarrow> (js_error + nat) option \<times> SSHConnection" where
  "open_channel cmd env s =
     (case client s of
        None \<Rightarrow> (Some (Inl (JsError null_exec_message)), s)
      | Some c \<Rightarrow>
          (case channel_error env of
             Some e \<Rightarrow> (Some (Inl e), s)
           | None \<Rightarrow>
               (case exec_callback cmd (commandTimeout s) s of
                  (ch, s2) \<Rightarrow> (Some (Inr ch), s2))))"

definition exec_open :: "string \<Rightarrow> exec_env \<Rightarrow> SSHConnection \<Rightarrow> (js_error + nat) option \<times> SSHConnection" where
  "exec_open cmd env s =
     (case ensure_connected env (s\<lparr>lastActivity := called_at env\<rparr>) of
        (None, s1) \<Rightarrow> (None, s1)
      | (Some (Inl e), s1) \<Rightarrow> (Some (Inl e), s1)
      | (Some (Inr u), s1) \<Rightarrow> open_channel cmd env s1)"

definition exec :: "string \<Rightarrow> exec_env \<Rightarrow> SSHConnection \<Rightarrow> (js_error + exec_result) option \<times> SSHConnection" where
  "exec cmd env s =
     (case exec_open cmd env s of
        (None, s1) \<Rightarrow> (None, s1)
      | (Some (Inl e), s1) \<Rightarrow> (Some (Inl e), s1)
      | (Some (Inr ch), s2) \<Rightarrow>
          (let s3 = run_stream ch (stream env) s2
           in (outcome_of ch s3, s3)))"

text \<open>
  The segments of \<open>exec\<close>. The first runs from the call to the first wait: it
  refreshes \<open>lastActivity\<close> and, if the session is not connected or has no client,
  calls \<open>connect\<close>, which runs to its own first wait. The call goes on when that
  \<open>connect\<close> has settled, by asking the client for a channel, which changes nothing
  in the session; its last segment is the callback of \<open>client.exec\<close> with a
  stream, \<open>exec_callback\<close> above.
\<close>

definition exec_begin :: "int \<Rightarrow> SSHConnection \<Rightarrow> SSHConnection" where
  "exec_begin now s =
     (let s1 = s\<lparr>lastActivity := now\<rparr>
      in if \<not> isConnected s1 \<or> client s1 = None then snd (connect_begin s1) else s1)"

section \<open>SSHConnectionPool\<close>

text \<open>
  The pool: the map from identifiers to session objects, in insertion order, and the
  command timeout given to the sessions it builds. The session objects are kept in
  \<open>sessions\<close>; the map holds their handles, so that "the same session object" is
  "the same handle". A handle in the map names a session object (\<open>pool_ok\<close> below):
  the pool only stores sessions it has built.
\<close>

record SSHConnectionPool =
  connections :: "(string \<times> nat) list"
  poolCommandTimeout :: int
  sessions :: "SSHConnection list"

definition new_SSHConnectionPool :: "int option \<Rightarrow> SSHConnectionPool" where
  "new_SSHConnectionPool tmo =
     \<lparr>connections = [], poolCommandTimeout = (case tmo of None \<Rightarrow> 60000 | Some t \<Rightarrow> t),
      sessions = []\<rparr>"

text \<open>
  \<open>get\<close>. The environment gives the time at which a new session is constructed and the
  answers to the \<open>connect\<close> call. The result is \<open>None\<close> while the awaited
  \<open>connect\<close> is not settled, the error it rejected with, or the session.
\<close>

definition connect_at :: "nat \<Rightarrow> connect_env \<Rightarrow> SSHConnectionPool \<Rightarrow> (js_error + unit) option \<times> SSHConnectionPool" where
  "connect_at a env p =
     (case connect env (sessions p ! a) of
        (r, s') \<Rightarrow> (r, p\<lparr>sessions := (sessions p)[a := s']\<rparr>))"

definition awaited :: "nat \<Rightarrow> (js_error + unit) option \<Rightarrow> (js_error + nat) option" where
  "awaited a r = (case r of None \<Rightarrow> None | Some (Inl e) \<Rightarrow> Some (Inl e) | Some (Inr u) \<Rightarrow> Some (Inr a))"

definition get :: "string \<Rightarrow> SSHConnectionConfig \<Rightarrow> int \<Rightarrow> connect_env \<Rightarrow> SSHConnectionPool \<Rightarrow>
    (js_error + nat) option \<times> SSHConnectionPool" where
  "get ident cfg now env p =
     (case map_of (connections p) ident of
        None \<Rightarrow>
          (let a = length (sessions p);
               p1 = p\<lparr>sessions := sessions p @ [new_SSHConnection cfg (Some (poolCommandTimeout p)) now]\<rparr>;
               p2 = p1\<lparr>connections := AList.update ident a (connections p1)\<rparr>
           in case connect_at a env p2 of (r, p3) \<Rightarrow> (awaited a r, p3))
      | Some a \<Rightarrow>
          (if \<not> isActive (sessions p ! a)
           then (case connect_at a env p of (r, p3) \<Rightarrow> (awaited a r, p3))
           else (Some (Inr a), p)))"

definition close :: "string \<Rightarrow> SSHConnectionPool \<Rightarrow> SSHConnectionPool" where
  "close ident p =
     (case map_of (connections p) ident of
        Some a \<Rightarrow> p\<lparr>sessions := upd a disconnect (sessions p),
                    connections := AList.delete ident (connections p)\<rparr>
      | None \<Rightarrow> p)"

definition closeAll :: "SSHConnectionPool \<Rightarrow> SSHConnectionPool" where
  "closeAll p =
     (fold (\<lambda>a q. q\<lparr>sessions := upd a disconnect (sessions q)\<rparr>) (map snd (connections p)) p)
       \<lparr>connections := []\<rparr>"

section \<open>Notions used to state the properties\<close>

text \<open>
  The data events of a channel. The text accumulated from the primary stream and from the
  error stream by a list of events: the texts of the chunks, each decoded on its own. And
  the bytes that a list of events delivers on each stream.
\<close>

fun is_data :: "stream_event \<Rightarrow> bool" where
  "is_data (Data d) = True"
| "is_data (StderrData d) = True"
| "is_data e = False"

fun primary :: "stream_event list \<Rightarrow> js_string" where
  "primary [] = []"
| "primary (Data d # es) = toString d @ primary es"
| "primary (e # es) = primary es"

fun secondary :: "stream_event list \<Rightarrow> js_string" where
  "secondary [] = []"
| "secondary (StderrData d # es) = toString d @ secondary es"
| "secondary (e # es) = secondary es"






text \<open>The bytes, and the code units, of an ASCII text.\<close>

definition ascii :: "string \<Rightarrow> int list" where
  "ascii cs = map of_char cs"

text \<open>The session called \<open>stream.close()\<close> on the channel.\<close>

definition closed_by_us :: "nat \<Rightarrow> SSHConnection \<Rightarrow> bool" where
  "closed_by_us ch s = (ch < length (channels s) \<and> closeCalled (channels s ! ch))"

text \<open>The listeners of a client on which \<open>connect\<close> has just opened the transport.\<close>

definition fresh_listeners :: "(event \<times> listener) list" where
  "fresh_listeners = [(EvError, LostError), (EvEnd, LostEnd), (EvClose, LostClose),
                      (EvReady, OnReady), (EvError, OnError)]"

text \<open>Every handle in the map of the pool names a session object.\<close>

definition pool_ok :: "SSHConnectionPool \<Rightarrow> bool" where
  "pool_ok p = (\<forall>a \<in> snd ` set (connections p). a < length (sessions p))"

text \<open>
  Everything that can happen to a session. First the calls of its methods by a caller that
  nothing interrupts (a call with all it waits for), the events of its transports, its
  timers firing (a reconnect timer with all that its \<open>connect\<close> waits for) and the
  events on its channels. Then the segments, one by one: \<open>connect\<close> is called and
  runs to its first wait; the file system answers the \<open>connect\<close> call that built
  the client \<open>c\<close>; \<open>exec\<close> is called and runs to its first wait;
  \<open>client.exec\<close> calls back with a stream for a command; a timer fires and its
  callback runs to its first wait. The answer of a transport to a \<open>connect\<close> call
  is an event of that transport. A history is a list of such steps; the segments of
  different calls may alternate in it in any order.
\<close>

datatype action =
    CallConnect connect_env
  | CallExec string exec_env
  | CallDisconnect
  | TransportEmits nat event js_error int
  | TimerFires nat connect_env
  | ChannelEvent nat stream_event
  | ConnectBegins
  | KeyRead nat "js_error + string"
  | ExecBegins int
  | ChannelOpens string
  | TimerBegins nat

fun step :: "action \<Rightarrow> SSHConnection \<Rightarrow> SSHConnection" where
  "step (CallConnect env) s = snd (connect env s)"
| "step (CallExec cmd env) s = snd (exec cmd env s)"
| "step CallDisconnect s = disconnect s"
| "step (TransportEmits c ev err now) s = emit c ev err now s"
| "step (TimerFires t env) s = snd (fire t env s)"
| "step (ChannelEvent ch e) s = stream_step ch e s"
| "step ConnectBegins s = snd (connect_begin s)"
| "step (KeyRead c r) s = connect_resume c r s"
| "step (ExecBegins now) s = exec_begin now s"
| "step (ChannelOpens cmd) s = snd (exec_callback cmd (commandTimeout s) s)"
| "step (TimerBegins t) s = fire_begin t s"

definition run :: "action list \<Rightarrow> SSHConnection \<Rightarrow> SSHConnection" where
  "run acts s = fold step acts s"

text \<open>The steps that are one segment: all but the three that stand for a whole call.\<close>

fun segment :: "action \<Rightarrow> bool" where
  "segment (CallConnect env) = False"
| "segment (CallExec cmd env) = False"
| "segment (TimerFires t env) = False"
| "segment a = True"

text \<open>
  The client \<open>c\<close> exists, has no listener, and no call of \<open>connect\<close> waits
  for the key file with it. The client \<open>c\<close> exists and carries none of the three
  long-lived listeners.
\<close>

definition silent :: "nat \<Rightarrow> SSHConnection \<Rightarrow> bool" where
  "silent c s =
     (c < length (clients s) \<and> listeners (clients s ! c) = [] \<and> reading (clients s ! c) = None)"

definition unhooked :: "nat \<Rightarrow> SSHConnection \<Rightarrow> bool" where
  "unhooked c s = (c < length (clients s) \<and> list_all (\<lambda>p. is_once (snd p)) (listeners (clients s ! c)))"

text \<open>
  A descriptor without a usable credential; a client that carries at most the three
  long-lived listeners; a session that is not connected and none of whose clients has
  opened a transport or waits for a key file.
\<close>

definition no_credential :: "SSHConnectionConfig \<Rightarrow> bool" where
  "no_credential cfg = (\<not> truthy (privateKeyPath cfg) \<and> \<not> truthy (password cfg))"

definition lost_only :: "client_obj \<Rightarrow> bool" where
  "lost_only x = (set (listeners x) \<subseteq> {(EvError, LostError), (EvEnd, LostEnd), (EvClose, LostClose)})"

definition never_opened :: "SSHConnection \<Rightarrow> bool" where
  "never_opened s =
     (\<not> isConnected s \<and> no_credential (config s)
      \<and> list_all (\<lambda>x. opened x = None \<and> reading x = None \<and> lost_only x) (clients s))"

text \<open>
  The timer \<open>t\<close> is a pending reconnect timer. The session refers to a timer that
  exists, and no reconnect timer other than the one it refers to is pending.
\<close>

definition reconnect_pending :: "nat \<Rightarrow> SSHConnection \<Rightarrow> bool" where
  "reconnect_pending t s = (is_pending t s \<and> callback (timers s ! t) = Reconnect)"

definition one_reconnect_timer :: "SSHConnection \<Rightarrow> bool" where
  "one_reconnect_timer s =
     ((case reconnectTimer s of Some t \<Rightarrow> t < length (timers s) | None \<Rightarrow> True)
      \<and> (\<forall>t \<in> {0..<length (timers s)}. reconnect_pending t s \<longrightarrow> reconnectTimer s = Some t))"

text \<open>
  No call of \<open>connect\<close> is in progress: no client carries \<open>onReady\<close> (no call
  waits for a transport) and no call waits for the key file.
\<close>

definition quiet :: "SSHConnection \<Rightarrow> bool" where
  "quiet s = list_all (\<lambda>x. OnReady \<notin> snd ` set (listeners x) \<and> reading x = None) (clients s)"

text \<open>The session is not connected and no call of \<open>connect\<close> is in progress.\<close>

definition asleep :: "SSHConnection \<Rightarrow> bool" where
  "asleep s = (\<not> isConnected s \<and> quiet s)"

text \<open>
  No reconnect timer is pending. A session is dormant at time \<open>now\<close> when it is not
  connected, no call of \<open>connect\<close> is in progress, no reconnect timer is pending,
  and it has been idle for 30 minutes or more.
\<close>

definition no_reconnect_pending :: "SSHConnection \<Rightarrow> bool" where
  "no_reconnect_pending s = list_all (\<lambda>x. \<not> (pending x \<and> callback x = Reconnect)) (timers s)"

definition dormant :: "int \<Rightarrow> SSHConnection \<Rightarrow> bool" where
  "dormant now s =
     (\<not> isConnected s \<and> quiet s \<and> no_reconnect_pending s
      \<and> \<not> now - lastActivity s < 30 * 60 * 1000)"

text \<open>
  The steps in which neither \<open>connect\<close> nor \<open>exec\<close> is called and no channel
  closes: the events of the transports from the time \<open>now\<close> on, the timers firing,
  data on the channels, a channel being opened for an \<open>exec\<close> called earlier, an
  answer of the file system, and \<open>disconnect\<close>. The calls of \<open>connect\<close>
  and \<open>exec\<close>, whole or begun, and the close of a channel (whose listener, set up by
  \<open>exec\<close>, refreshes \<open>lastActivity\<close>) are not among them.
\<close>

fun is_passive :: "int \<Rightarrow> action \<Rightarrow> bool" where
  "is_passive now (TransportEmits c ev err t) = (now \<le> t)"
| "is_passive now (TimerFires t env) = True"
| "is_passive now (TimerBegins t) = True"
| "is_passive now (ChannelEvent ch (Close code t)) = False"
| "is_passive now (ChannelEvent ch e) = True"
| "is_passive now (ChannelOpens cmd) = True"
| "is_passive now (KeyRead c r) = True"
| "is_passive now CallDisconnect = True"
| "is_passive now a = False"

text \<open>Concrete inputs, used to run the properties.\<close>

definition demo_config :: SSHConnectionConfig where
  "demo_config = \<lparr>host = ''example.org'', port = 22, username = ''root'', privateKeyPath = None,
     password = Some ''secret'', keepaliveInterval = None, keepaliveCountMax = None,
     readyTimeout = None\<rparr>"

definition demo_ready :: connect_env where
  "demo_ready = \<lparr>readFile = (\<lambda>p. Inr ''key''), reply = Ready, reply_at = 5\<rparr>"

definition demo_refused :: connect_env where
  "demo_refused = \<lparr>readFile = (\<lambda>p. Inr ''key''), reply = Failure (JsError ''refused''), reply_at = 5\<rparr>"

definition demo_stderr_only :: exec_env where
  "demo_stderr_only = \<lparr>called_at = 1, connecting = demo_ready, channel_error = None,
     stream = [StderrData (ascii ''oops''), Close (Some 2) 9]\<rparr>"

definition demo_hangs :: exec_env where
  "demo_hangs = \<lparr>called_at = 1, connecting = demo_ready, channel_error = None,
     stream = [Data (ascii ''working''), TimerFired, Close None 60009]\<rparr>"

definition demo_other_config :: SSHConnectionConfig where
  "demo_other_config = demo_config\<lparr>host := ''other.example.org'', password := Some ''changed''\<rparr>"

text \<open>A pool after one successful \<open>get\<close>, and a pool after one failed \<open>get\<close>.\<close>

definition demo_pool :: SSHConnectionPool where
  "demo_pool = snd (get ''web'' demo_config 0 demo_ready (new_SSHConnectionPool None))"

definition demo_failed_pool :: SSHConnectionPool where
  "demo_failed_pool = snd (get ''web'' demo_config 0 demo_refused (new_SSHConnectionPool None))"

definition demo_no_auth :: SSHConnectionConfig where
  "demo_no_auth = demo_config\<lparr>password := None\<rparr>"

text \<open>The session of the first pool when its connection has just been lost.\<close>

definition demo_lost :: SSHConnection where
  "demo_lost = (sessions demo_pool ! 0)\<lparr>isConnected := False\<rparr>"

text \<open>A session with a command timeout of one hour on which a command is running.\<close>

definition demo_long_command :: SSHConnection where
  "demo_long_command =
     snd (exec ''make'' (demo_stderr_only\<lparr>stream := []\<rparr>)
            (new_SSHConnection demo_config (Some 3600000) 0))"


text \<open>A session that authenticates with a key file, at its construction.\<close>

definition demo_key_config :: SSHConnectionConfig where
  "demo_key_config = demo_config\<lparr>privateKeyPath := Some ''/root/.ssh/id_ed25519'', password := None\<rparr>"

definition demo_key_session :: SSHConnection where
  "demo_key_session = new_SSHConnection demo_key_config None 0"

section \<open>Basic facts\<close>

lemma length_upd [simp]: "length (upd i f xs) = length xs"
  by (simp add: upd_def)

lemma nth_upd_same [simp]: "i < length xs \<Longrightarrow> upd i f xs ! i = f (xs ! i)"
  by (simp add: upd_def)

lemma nth_upd_other [simp]: "j \<noteq> i \<Longrightarrow> upd i f xs ! j = xs ! j"
  by (simp add: upd_def)

lemma upd_upd [simp]: "upd i f (upd i g xs) = upd i (\<lambda>x. f (g x)) xs"
  by (simp add: upd_def)

subsection \<open>What the callbacks leave alone\<close>

lemma scheduleReconnect_frame [simp]:
  "commandTimeout (scheduleReconnect now s) = commandTimeout s"
  "config (scheduleReconnect now s) = config s"
  "clients (scheduleReconnect now s) = clients s"
  "channels (scheduleReconnect now s) = channels s"
  "client (scheduleReconnect now s) = client s"
  "isConnected (scheduleReconnect now s) = isConnected s"
  "lastActivity (scheduleReconnect now s) = lastActivity s"
  by (simp_all add: scheduleReconnect_def clearTimeout_def setTimeout_def Let_def split: option.splits)

lemma removeListener_frame [simp]:
  "commandTimeout (removeListener c ev l s) = commandTimeout s"
  "config (removeListener c ev l s) = config s"
  "channels (removeListener c ev l s) = channels s"
  "timers (removeListener c ev l s) = timers s"
  "client (removeListener c ev l s) = client s"
  "isConnected (removeListener c ev l s) = isConnected s"
  "lastActivity (removeListener c ev l s) = lastActivity s"
  "reconnectTimer (removeListener c ev l s) = reconnectTimer s"
  "length (clients (removeListener c ev l s)) = length (clients s)"
  by (simp_all add: removeListener_def)

lemma cleanup_frame [simp]:
  "commandTimeout (cleanup c s) = commandTimeout s"
  "config (cleanup c s) = config s"
  "channels (cleanup c s) = channels s"
  "timers (cleanup c s) = timers s"
  "client (cleanup c s) = client s"
  "isConnected (cleanup c s) = isConnected s"
  "lastActivity (cleanup c s) = lastActivity s"
  "reconnectTimer (cleanup c s) = reconnectTimer s"
  "length (clients (cleanup c s)) = length (clients s)"
  by (simp_all add: cleanup_def)

lemma settle_connect_frame [simp]:
  "commandTimeout (settle_connect c r s) = commandTimeout s"
  "config (settle_connect c r s) = config s"
  "channels (settle_connect c r s) = channels s"
  "timers (settle_connect c r s) = timers s"
  "client (settle_connect c r s) = client s"
  "isConnected (settle_connect c r s) = isConnected s"
  "lastActivity (settle_connect c r s) = lastActivity s"
  "reconnectTimer (settle_connect c r s) = reconnectTimer s"
  "length (clients (settle_connect c r s)) = length (clients s)"
  by (simp_all add: settle_connect_def)

lemma invoke_frame [simp]:
  "commandTimeout (invoke c ev err now l s) = commandTimeout s"
  "config (invoke c ev err now l s) = config s"
  "channels (invoke c ev err now l s) = channels s"
  "client (invoke c ev err now l s) = client s"
  "length (clients (invoke c ev err now l s)) = length (clients s)"
  by (cases l; simp add: invoke_def)+

lemma fold_invoke_frame [simp]:
  "commandTimeout (fold (invoke c ev err now) ls s) = commandTimeout s"
  "config (fold (invoke c ev err now) ls s) = config s"
  "channels (fold (invoke c ev err now) ls s) = channels s"
  "client (fold (invoke c ev err now) ls s) = client s"
  "length (clients (fold (invoke c ev err now) ls s)) = length (clients s)"
  by (induction ls arbitrary: s) simp_all

lemma emit_frame [simp]:
  "commandTimeout (emit c ev err now s) = commandTimeout s"
  "config (emit c ev err now s) = config s"
  "channels (emit c ev err now s) = channels s"
  "client (emit c ev err now s) = client s"
  "length (clients (emit c ev err now s)) = length (clients s)"
  by (simp_all add: emit_def)

lemma set_reading_frame [simp]:
  "commandTimeout (set_reading c r s) = commandTimeout s"
  "config (set_reading c r s) = config s"
  "channels (set_reading c r s) = channels s"
  "timers (set_reading c r s) = timers s"
  "client (set_reading c r s) = client s"
  "isConnected (set_reading c r s) = isConnected s"
  "lastActivity (set_reading c r s) = lastActivity s"
  "reconnectTimer (set_reading c r s) = reconnectTimer s"
  "length (clients (set_reading c r s)) = length (clients s)"
  by (simp_all add: set_reading_def)

lemma promise_executor_frame [simp]:
  "commandTimeout (promise_executor c cfg s) = commandTimeout s"
  "config (promise_executor c cfg s) = config s"
  "channels (promise_executor c cfg s) = channels s"
  "timers (promise_executor c cfg s) = timers s"
  "client (promise_executor c cfg s) = client s"
  "isConnected (promise_executor c cfg s) = isConnected s"
  "lastActivity (promise_executor c cfg s) = lastActivity s"
  "reconnectTimer (promise_executor c cfg s) = reconnectTimer s"
  "length (clients (promise_executor c cfg s)) = length (clients s)"
  by (simp_all add: promise_executor_def open_transport_def addListener_def)

lemma connect_begin_frame [simp]:
  "commandTimeout (snd (connect_begin s)) = commandTimeout s"
  "config (snd (connect_begin s)) = config s"
  "channels (snd (connect_begin s)) = channels s"
  "timers (snd (connect_begin s)) = timers s"
  "isConnected (snd (connect_begin s)) = isConnected s"
  "lastActivity (snd (connect_begin s)) = lastActivity s"
  "reconnectTimer (snd (connect_begin s)) = reconnectTimer s"
  by (simp_all add: connect_begin_def Let_def addListener_def detach_previous_def end_client_def
        removeAllListeners_def split: option.splits)

lemma connect_resume_frame [simp]:
  "commandTimeout (connect_resume c r s) = commandTimeout s"
  "config (connect_resume c r s) = config s"
  "channels (connect_resume c r s) = channels s"
  "timers (connect_resume c r s) = timers s"
  "client (connect_resume c r s) = client s"
  "isConnected (connect_resume c r s) = isConnected s"
  "lastActivity (connect_resume c r s) = lastActivity s"
  "reconnectTimer (connect_resume c r s) = reconnectTimer s"
  "length (clients (connect_resume c r s)) = length (clients s)"
  by (simp_all add: connect_resume_def split: option.splits sum.splits)

lemma upd_id: "f (xs ! i) = xs ! i \<Longrightarrow> upd i f xs = xs"
  by (simp add: upd_def)

lemma addListener_frame [simp]:
  "commandTimeout (addListener c ev l s) = commandTimeout s"
  "config (addListener c ev l s) = config s"
  "channels (addListener c ev l s) = channels s"
  "timers (addListener c ev l s) = timers s"
  "client (addListener c ev l s) = client s"
  "isConnected (addListener c ev l s) = isConnected s"
  "lastActivity (addListener c ev l s) = lastActivity s"
  "reconnectTimer (addListener c ev l s) = reconnectTimer s"
  "length (clients (addListener c ev l s)) = length (clients s)"
  by (simp_all add: addListener_def)

lemma addListener_reading [simp]:
  "reading (clients (addListener c ev l s) ! i) = reading (clients s ! i)"
  by (cases "i = c"; cases "c < length (clients s)") (simp_all add: addListener_def upd_def)

lemma set_reading_twice:
  assumes "c < length (clients s)" and "reading (clients s ! c) = r"
  shows "set_reading c r (set_reading c r' s) = s"
  using assms by (simp add: set_reading_def upd_id)

lemma reading_set_reading:
  "c < length (clients s) \<Longrightarrow> reading (clients (set_reading c r s) ! c) = r"
  by (simp add: set_reading_def)

text \<open>
  The call up to the wait for the transport, written out: the file is read where the
  call waits for it.
\<close>

lemma connect_start_unfold:
  "connect_start rf s =
     (if isConnected s then (Returned (Inr ()), s)
      else
        let s1 = detach_previous s;
            c = length (clients s1);
            s2 = s1\<lparr>clients := clients s1 @ [new_Client], client := Some c\<rparr>;
            s3 = addListener c EvClose LostClose
                   (addListener c EvEnd LostEnd (addListener c EvError LostError s2));
            cfg = \<lparr>opt_host = host (config s3), opt_port = port (config s3),
                   opt_username = username (config s3),
                   opt_keepaliveInterval = or_default (keepaliveInterval (config s3)) 10000,
                   opt_keepaliveCountMax = or_default (keepaliveCountMax (config s3)) 3,
                   opt_readyTimeout = or_default (readyTimeout (config s3)) 20000,
                   opt_privateKey = None, opt_password = None\<rparr>
        in if truthy (privateKeyPath (config s3)) then
             (case rf (get_str (privateKeyPath (config s3))) of
                Inl e \<Rightarrow> (Returned (Inl e), s3)
              | Inr key \<Rightarrow> (Waiting c, promise_executor c (cfg\<lparr>opt_privateKey := Some key\<rparr>) s3))
           else if truthy (password (config s3)) then
             (Waiting c, promise_executor c (cfg\<lparr>opt_password := password (config s3)\<rparr>) s3)
           else (Returned (Inl (JsError ''No auth method: need password or privateKeyPath'')), s3))"
proof (cases "isConnected s")
  case True
  then show ?thesis by (simp add: connect_start_def connect_begin_def)
next
  case False
  define s1 where "s1 = detach_previous s"
  define c where "c = length (clients s1)"
  define s2 where "s2 = s1\<lparr>clients := clients s1 @ [new_Client], client := Some c\<rparr>"
  define s3 where "s3 = addListener c EvClose LostClose
                   (addListener c EvEnd LostEnd (addListener c EvError LostError s2))"
  define cfg where "cfg = \<lparr>opt_host = host (config s3), opt_port = port (config s3),
                   opt_username = username (config s3),
                   opt_keepaliveInterval = or_default (keepaliveInterval (config s3)) 10000,
                   opt_keepaliveCountMax = or_default (keepaliveCountMax (config s3)) 3,
                   opt_readyTimeout = or_default (readyTimeout (config s3)) 20000,
                   opt_privateKey = None, opt_password = None\<rparr>"
  have len: "c < length (clients s3)" by (simp add: s3_def s2_def c_def)
  have rd: "reading (clients s3 ! c) = None" by (simp add: s3_def s2_def c_def new_Client_def)
  have b: "connect_begin s =
             (if truthy (privateKeyPath (config s3)) then (Reading c, set_reading c (Some cfg) s3)
              else if truthy (password (config s3)) then
                (Opened c, promise_executor c (cfg\<lparr>opt_password := password (config s3)\<rparr>) s3)
              else (Finished (Inl (JsError ''No auth method: need password or privateKeyPath'')), s3))"
    using False
    unfolding connect_begin_def s1_def [symmetric] Let_def c_def [symmetric] s2_def [symmetric]
      s3_def [symmetric] cfg_def [symmetric]
    by simp
  have r1: "connect_resume c (Inl e) (set_reading c (Some cfg) s3) = s3" for e
    using len rd by (simp add: connect_resume_def reading_set_reading set_reading_twice)
  have r2: "connect_resume c (Inr key) (set_reading c (Some cfg) s3) =
              promise_executor c (cfg\<lparr>opt_privateKey := Some key\<rparr>) s3" for key
    using len rd by (simp add: connect_resume_def reading_set_reading set_reading_twice)
  have "connect_start rf s =
          (if truthy (privateKeyPath (config s3)) then
             (case rf (get_str (privateKeyPath (config s3))) of
                Inl e \<Rightarrow> (Returned (Inl e), s3)
              | Inr key \<Rightarrow> (Waiting c, promise_executor c (cfg\<lparr>opt_privateKey := Some key\<rparr>) s3))
           else if truthy (password (config s3)) then
             (Waiting c, promise_executor c (cfg\<lparr>opt_password := password (config s3)\<rparr>) s3)
           else (Returned (Inl (JsError ''No auth method: need password or privateKeyPath'')), s3))"
    by (simp add: connect_start_def b r1 r2 split: sum.splits)
  then show ?thesis
    using False
    unfolding s1_def [symmetric] Let_def c_def [symmetric] s2_def [symmetric]
      s3_def [symmetric] cfg_def [symmetric]
    by simp
qed

lemma connect_start_frame [simp]:
  "commandTimeout (snd (connect_start rf s)) = commandTimeout s"
  "config (snd (connect_start rf s)) = config s"
  "channels (snd (connect_start rf s)) = channels s"
  by (simp_all add: connect_start_unfold Let_def promise_executor_def open_transport_def
        addListener_def detach_previous_def end_client_def removeAllListeners_def
        split: option.splits sum.splits)

lemma connect_frame [simp]:
  "commandTimeout (snd (connect env s)) = commandTimeout s"
  "config (snd (connect env s)) = config s"
  "channels (snd (connect env s)) = channels s"
proof -
  obtain r s1 where cs: "connect_start (readFile env) s = (r, s1)" by force
  have f: "commandTimeout s1 = commandTimeout s" "config s1 = config s" "channels s1 = channels s"
    using connect_start_frame [of "readFile env" s] by (simp_all add: cs)
  show "commandTimeout (snd (connect env s)) = commandTimeout s"
    by (cases r) (simp_all add: connect_def cs f transport_replies_def Let_def split: transport_reply.splits)
  show "config (snd (connect env s)) = config s"
    by (cases r) (simp_all add: connect_def cs f transport_replies_def Let_def split: transport_reply.splits)
  show "channels (snd (connect env s)) = channels s"
    by (cases r) (simp_all add: connect_def cs f transport_replies_def Let_def split: transport_reply.splits)
qed

subsection \<open>The two outcomes of opening the transport\<close>

lemma nth_append_at [simp]: "n = length xs \<Longrightarrow> (xs @ [x]) ! n = x"
  by simp

lemma update_append_at [simp]: "n = length xs \<Longrightarrow> (xs @ [x])[n := y] = xs @ [y]"
  by simp

lemma detach_previous_frame [simp]:
  "length (clients (detach_previous s)) = length (clients s)"
  "timers (detach_previous s) = timers s"
  "isConnected (detach_previous s) = isConnected s"
  "lastActivity (detach_previous s) = lastActivity s"
  "reconnectTimer (detach_previous s) = reconnectTimer s"
  "commandTimeout (detach_previous s) = commandTimeout s"
  "config (detach_previous s) = config s"
  "channels (detach_previous s) = channels s"
  by (simp_all add: detach_previous_def end_client_def removeAllListeners_def split: option.splits)

lemma connect_start_waiting:
  assumes "connect_start rf s = (Waiting c, s1)"
  shows "c = length (clients s)"
    and "\<not> isConnected s"
    and "s1 = (detach_previous s)\<lparr>client := Some c, clients := clients (detach_previous s) @
             [\<lparr>listeners = fresh_listeners, opened = opened (last (clients s1)),
               ended = False, settled = None, reading = None\<rparr>]\<rparr>"
    and "opened (last (clients s1)) \<noteq> None"
  using assms
  by (auto simp: connect_start_unfold Let_def promise_executor_def open_transport_def addListener_def
        new_Client_def upd_def fresh_listeners_def
        split: if_splits sum.splits)

lemma connect_start_returned:
  assumes "connect_start rf s = (Returned r, s1)"
  shows "(isConnected s \<and> r = Inr () \<and> s1 = s)
       \<or> (\<not> isConnected s \<and> (\<exists>e. r = Inl e) \<and>
            s1 = (detach_previous s)\<lparr>client := Some (length (clients s)),
              clients := clients (detach_previous s) @
              [\<lparr>listeners = [(EvError, LostError), (EvEnd, LostEnd), (EvClose, LostClose)],
                opened = None, ended = False, settled = None, reading = None\<rparr>]\<rparr>)"
  using assms
  by (auto simp: connect_start_unfold Let_def promise_executor_def open_transport_def addListener_def
        new_Client_def upd_def
        split: if_splits sum.splits)

text \<open>The two answers of the transport on a client that has just been opened.\<close>

lemma emit_ready_fresh:
  assumes "c = length cs"
  shows "emit c EvReady err now (s\<lparr>clients := cs @
             [\<lparr>listeners = fresh_listeners, opened = o1, ended = False, settled = None, reading = None\<rparr>]\<rparr>)
         = s\<lparr>clients := cs @
             [\<lparr>listeners = [(EvError, LostError), (EvEnd, LostEnd), (EvClose, LostClose)],
               opened = o1, ended = False, settled = Some (Inr ()), reading = None\<rparr>],
             isConnected := True, lastActivity := now\<rparr>"
  using assms
  by (simp add: emit_def listeners_for_def fresh_listeners_def invoke_def removeListener_def
        cleanup_def settle_connect_def upd_def)

lemma emit_error_fresh:
  assumes "c = length cs"
  shows "emit c EvError err now (s\<lparr>clients := cs @
             [\<lparr>listeners = fresh_listeners, opened = o1, ended = False, settled = None, reading = None\<rparr>]\<rparr>)
         = (scheduleReconnect now (s\<lparr>isConnected := False\<rparr>))\<lparr>clients := cs @
             [\<lparr>listeners = [(EvError, LostError), (EvEnd, LostEnd), (EvClose, LostClose)],
               opened = o1, ended = False, settled = Some (Inl err), reading = None\<rparr>]\<rparr>"
  using assms
  by (simp add: emit_def listeners_for_def fresh_listeners_def invoke_def removeListener_def
        cleanup_def settle_connect_def upd_def scheduleReconnect_def clearTimeout_def setTimeout_def
        Let_def split: option.splits)

lemma connect_ready:
  assumes w: "connect_start (readFile env) s = (Waiting c, s1)" and r: "reply env = Ready"
  shows "connect env s =
           (Some (Inr ()),
            (detach_previous s)\<lparr>client := Some c, clients := clients (detach_previous s) @
               [\<lparr>listeners = [(EvError, LostError), (EvEnd, LostEnd), (EvClose, LostClose)],
                 opened = opened (last (clients s1)), ended = False, settled = Some (Inr ()), reading = None\<rparr>],
               isConnected := True, lastActivity := reply_at env\<rparr>)"
proof -
  note cw = connect_start_waiting [OF w]
  have c: "c = length (clients (detach_previous s))" using cw(1) by simp
  show ?thesis
    unfolding connect_def w transport_replies_def r
    apply (subst cw(3))
    apply (simp add: Let_def emit_ready_fresh settled_of_def c)
    done
qed

lemma connect_failure:
  assumes w: "connect_start (readFile env) s = (Waiting c, s1)" and r: "reply env = Failure e"
  shows "connect env s =
           (Some (Inl e),
            (scheduleReconnect (reply_at env) (detach_previous s))\<lparr>client := Some c,
               clients := clients (detach_previous s) @
               [\<lparr>listeners = [(EvError, LostError), (EvEnd, LostEnd), (EvClose, LostClose)],
                 opened = opened (last (clients s1)), ended = False, settled = Some (Inl e), reading = None\<rparr>]\<rparr>)"
proof -
  note cw = connect_start_waiting [OF w]
  have c: "c = length (clients (detach_previous s))" using cw(1) by simp
  have nc: "\<not> isConnected (detach_previous s)" using cw(2) by simp
  show ?thesis
    unfolding connect_def w transport_replies_def r
    apply (subst cw(3))
    apply (simp add: Let_def emit_error_fresh settled_of_def c)
    using nc
    apply (simp add: scheduleReconnect_def clearTimeout_def setTimeout_def Let_def split: option.splits)
    done
qed

lemma connect_settles: "fst (connect env s) \<noteq> None"
proof (cases "connect_start (readFile env) s")
  case (Pair st s1)
  show ?thesis
  proof (cases st)
    case (Returned r)
    with Pair show ?thesis by (simp add: connect_def)
  next
    case (Waiting c)
    with Pair have w: "connect_start (readFile env) s = (Waiting c, s1)" by simp
    show ?thesis
      by (cases "reply env") (simp_all add: connect_ready [OF w] connect_failure [OF w])
  qed
qed

lemma connect_rejected:
  assumes "connect env s = (Some (Inl e), s')"
  shows "\<not> isConnected s'"
proof (cases "connect_start (readFile env) s")
  case (Pair st s1)
  show ?thesis
  proof (cases st)
    case (Returned r)
    with Pair have rt: "connect_start (readFile env) s = (Returned r, s1)" by simp
    from connect_start_returned [OF rt] assms rt show ?thesis
      by (auto simp: connect_def)
  next
    case (Waiting c)
    with Pair have w: "connect_start (readFile env) s = (Waiting c, s1)" by simp
    show ?thesis
    proof (cases "reply env")
      case Ready
      from connect_ready [OF w Ready] assms show ?thesis by simp
    next
      case (Failure e')
      from connect_failure [OF w Failure] assms connect_start_waiting(2) [OF w] show ?thesis by auto
    qed
  qed
qed

lemma connect_resolved:
  assumes "connect env s = (Some (Inr u), s')"
  shows "(isConnected s \<and> s' = s) \<or> (\<not> isConnected s \<and> isActive s')"
proof (cases "connect_start (readFile env) s")
  case (Pair st s1)
  show ?thesis
  proof (cases st)
    case (Returned r)
    with Pair have rt: "connect_start (readFile env) s = (Returned r, s1)" by simp
    from connect_start_returned [OF rt] assms rt show ?thesis
      by (auto simp: connect_def)
  next
    case (Waiting c)
    with Pair have w: "connect_start (readFile env) s = (Waiting c, s1)" by simp
    show ?thesis
    proof (cases "reply env")
      case Ready
      from connect_ready [OF w Ready] assms connect_start_waiting(2) [OF w] show ?thesis
        by (auto simp: isActive_def)
    next
      case (Failure e')
      from connect_failure [OF w Failure] assms show ?thesis by simp
    qed
  qed
qed

section \<open>The text of a buffer\<close>


















section \<open>exec: the result of a command\<close>

lemma run_stream_append: "run_stream ch (xs @ ys) s = run_stream ch ys (run_stream ch xs s)"
  by (simp add: run_stream_def)

lemma run_stream_Cons: "run_stream ch (e # es) s = run_stream ch es (stream_step ch e s)"
  by (simp add: run_stream_def)

text \<open>Data events only add to the two buffers of the channel.\<close>

lemma run_stream_data:
  "list_all is_data evs \<Longrightarrow>
   run_stream ch evs s =
     s\<lparr>channels := upd ch (\<lambda>x. x\<lparr>out := out x @ primary evs, errOut := errOut x @ secondary evs\<rparr>) (channels s)\<rparr>"
proof (induction evs arbitrary: s)
  case Nil
  then show ?case by (simp add: run_stream_def upd_def)
next
  case (Cons e es)
  then show ?case
    by (cases e) (simp_all add: run_stream_def on_data_def on_stderr_data_def)
qed

lemma exec_callback_props:
  assumes "exec_callback cmd tmo s = (ch, s2)"
  shows "ch = length (channels s)"
    and "channels s2 = channels s @ [\<lparr>command = cmd, out = [], errOut = [], timer = length (timers s),
            timeoutMs = tmo, closeCalled = False, outcome = None\<rparr>]"
    and "timers s2 = timers s @ [\<lparr>delay = tmo, callback = ExecTimeout ch, pending = True\<rparr>]"
  using assms by (auto simp: exec_callback_def setTimeout_def Let_def)

lemma exec_open_channel:
  assumes "exec_open cmd env s = (Some (Inr ch), s2)"
  shows "\<exists>s1. exec_callback cmd (commandTimeout s1) s1 = (ch, s2)
            \<and> (s1 = s\<lparr>lastActivity := called_at env\<rparr>
                 \<or> (Some (Inr ()), s1) = connect (connecting env) (s\<lparr>lastActivity := called_at env\<rparr>))"
  using assms
  by (auto simp: exec_open_def ensure_connected_def open_channel_def
        split: prod.splits option.splits sum.splits if_splits)

text \<open>The timeout of the call is the \<open>commandTimeout\<close> of the session.\<close>

lemma exec_open_timeout:
  assumes "exec_open cmd env s = (Some (Inr ch), s2)"
  shows "\<exists>s1. exec_callback cmd (commandTimeout s) s1 = (ch, s2)"
proof -
  from exec_open_channel [OF assms] obtain s1
    where cb: "exec_callback cmd (commandTimeout s1) s1 = (ch, s2)"
      and s1: "s1 = s\<lparr>lastActivity := called_at env\<rparr>
                 \<or> (Some (Inr ()), s1) = connect (connecting env) (s\<lparr>lastActivity := called_at env\<rparr>)"
    by blast
  from s1 have "commandTimeout s1 = commandTimeout s"
  proof
    assume "s1 = s\<lparr>lastActivity := called_at env\<rparr>"
    then show ?thesis by simp
  next
    assume "(Some (Inr ()), s1) = connect (connecting env) (s\<lparr>lastActivity := called_at env\<rparr>)"
    then have "s1 = snd (connect (connecting env) (s\<lparr>lastActivity := called_at env\<rparr>))"
      by (metis snd_conv)
    then show ?thesis by simp
  qed
  with cb show ?thesis by auto
qed

text \<open>The timeout of a channel firing is its timer firing.\<close>

lemma timer_fired_is_fire:
  assumes "ch < length (channels s)"
      and "callback (timers s ! timer (channels s ! ch)) = ExecTimeout ch"
  shows "stream_step ch TimerFired s = snd (fire (timer (channels s ! ch)) env s)"
  using assms by (simp add: fire_def)

lemma timer_fired_opened:
  assumes "exec_callback cmd tmo s = (ch, s2)"
  shows "stream_step ch TimerFired s2 = snd (fire (timer (channels s2 ! ch)) env s2)"
proof -
  note fresh = exec_callback_props [OF assms]
  have "ch < length (channels s2)" using fresh by simp
  moreover have "callback (timers s2 ! timer (channels s2 ! ch)) = ExecTimeout ch"
    using fresh by simp
  ultimately show ?thesis by (rule timer_fired_is_fire)
qed

text \<open>Once the promise of the call is settled, no later event changes it.\<close>

lemma outcome_stable_step:
  "outcome_of ch s = Some r \<Longrightarrow> outcome_of ch (stream_step ch e s) = Some r"
  by (cases e)
     (auto simp: outcome_of_def on_data_def on_stderr_data_def on_close_def on_timeout_def
        settle_exec_def clearTimeout_def Let_def split: if_splits)

lemma outcome_stable:
  "outcome_of ch s = Some r \<Longrightarrow> outcome_of ch (run_stream ch evs s) = Some r"
  unfolding run_stream_def
  by (induction evs arbitrary: s) (simp_all add: outcome_stable_step)

lemma closed_stable_step:
  "closed_by_us ch s \<Longrightarrow> closed_by_us ch (stream_step ch e s)"
  by (cases e)
     (auto simp: closed_by_us_def on_data_def on_stderr_data_def on_close_def on_timeout_def
        settle_exec_def clearTimeout_def Let_def split: if_splits)

lemma closed_stable:
  "closed_by_us ch s \<Longrightarrow> closed_by_us ch (run_stream ch evs s)"
  unfolding run_stream_def
  by (induction evs arbitrary: s) (simp_all add: closed_stable_step)





text \<open>
  C4. When \<open>exec\<close> has opened its channel, the timeout timer it armed has the
  \<open>commandTimeout\<close> of the session as its delay (60000 for a session built without
  one). When that timer fires, after data events only (so before the channel closes), the
  session closes the channel and the call rejects with the error whose message is
  \<open>Command timed out after\<close>, the timeout as the template literal prints it
  (\<open>number_text\<close>: in decimal up to \<open>2^53\<close>), and \<open>ms\<close>. Whatever
  happens on the channel afterwards does not change the result.
\<close>

theorem exec_times_out:
  assumes opened: "exec_open cmd env s = (Some (Inr ch), s2)"
      and script: "stream env = evs @ TimerFired # rest"
      and data: "list_all is_data evs"
  shows "timers s2 ! timer (channels s2 ! ch) =
           \<lparr>delay = commandTimeout s, callback = ExecTimeout ch, pending = True\<rparr>
         \<and> fst (exec cmd env s) =
             Some (Inl (JsError (''Command timed out after '' @ number_text (commandTimeout s) @ ''ms'')))
         \<and> closed_by_us ch (snd (exec cmd env s))
         \<and> commandTimeout (new_SSHConnection cfg None t0) = 60000"
proof -
  from exec_open_timeout [OF opened] obtain s1
    where cb: "exec_callback cmd (commandTimeout s) s1 = (ch, s2)" by blast
  note fresh = exec_callback_props [OF cb]
  let ?e = "JsError (''Command timed out after '' @ number_text (commandTimeout s) @ ''ms'')"
  let ?s3 = "stream_step ch TimerFired (run_stream ch evs s2)"
  have armed: "timers s2 ! timer (channels s2 ! ch) =
           \<lparr>delay = commandTimeout s, callback = ExecTimeout ch, pending = True\<rparr>"
    using fresh by simp
  have fired: "outcome_of ch ?s3 = Some (Inl ?e) \<and> closed_by_us ch ?s3"
    using fresh data
    by (simp add: run_stream_data is_pending_def on_timeout_def Let_def outcome_of_def
          settle_exec_def clearTimeout_def closed_by_us_def)
  have run: "run_stream ch (stream env) s2 = run_stream ch rest ?s3"
    by (simp add: script run_stream_append run_stream_Cons)
  have "outcome_of ch (run_stream ch (stream env) s2) = Some (Inl ?e)"
    using fired by (simp add: run outcome_stable)
  moreover have "closed_by_us ch (run_stream ch (stream env) s2)"
    using fired by (simp add: run closed_stable)
  ultimately show ?thesis
    using armed by (simp add: exec_def opened Let_def new_SSHConnection_def)
qed

text \<open>
  A command that does not end, on a session with the default timeout; and the same with
  a timeout of \<open>10^21\<close> ms, which is printed with an exponent.
\<close>

theorem exec_times_out_witness:
  "exec_open ''sleep'' demo_hangs (new_SSHConnection demo_config None 0) =
     (Some (Inr 0), snd (exec_open ''sleep'' demo_hangs (new_SSHConnection demo_config None 0)))
   \<and> fst (exec ''sleep'' demo_hangs (new_SSHConnection demo_config None 0)) =
       Some (Inl (JsError ''Command timed out after 60000ms''))
   \<and> closed_by_us 0 (snd (exec ''sleep'' demo_hangs (new_SSHConnection demo_config None 0)))"
proof -
  have h1: "exec_open ''sleep'' demo_hangs (new_SSHConnection demo_config None 0) =
     (Some (Inr 0), snd (exec_open ''sleep'' demo_hangs (new_SSHConnection demo_config None 0)))"
    by code_simp
  have h2: "stream demo_hangs = [Data (ascii ''working'')] @ TimerFired # [Close None 60009]"
    by (simp add: demo_hangs_def)
  have h3: "list_all is_data [Data (ascii ''working'')]" by simp
  have h4: "number_text (commandTimeout (new_SSHConnection demo_config None 0)) = ''60000''"
    by (simp add: number_text_def new_SSHConnection_def, code_simp)
  from exec_times_out [OF h1 h2 h3] h1 h4 show ?thesis by simp
qed

section \<open>The pool\<close>

lemma update_absent: "map_of xs k = None \<Longrightarrow> AList.update k v xs = xs @ [(k, v)]"
  by (induction xs) (auto split: if_splits)

lemma map_of_append_absent: "map_of xs k = None \<Longrightarrow> map_of (xs @ [(k, v)]) k = Some v"
  by (simp add: map_add_Some_iff)

lemma get_new:
  assumes "map_of (connections p) ident = None"
      and "connect env (new_SSHConnection cfg (Some (poolCommandTimeout p)) now) = (r, s')"
  shows "get ident cfg now env p =
           (awaited (length (sessions p)) r,
            p\<lparr>connections := connections p @ [(ident, length (sessions p))],
              sessions := sessions p @ [s']\<rparr>)"
  using assms by (simp add: get_def Let_def connect_at_def update_absent)

lemma get_existing:
  assumes "map_of (connections p) ident = Some a"
  shows "get ident cfg now env p =
           (if isActive (sessions p ! a) then (Some (Inr a), p)
            else (awaited a (fst (connect env (sessions p ! a))),
                  p\<lparr>sessions := (sessions p)[a := snd (connect env (sessions p ! a))]\<rparr>))"
  using assms by (simp add: get_def connect_at_def split: prod.splits)

lemma pool_ok_mapped: "pool_ok p \<Longrightarrow> map_of (connections p) ident = Some a \<Longrightarrow> a < length (sessions p)"
  by (force simp: pool_ok_def dest: map_of_SomeD)

lemma awaited_simps [simp]:
  "awaited a (Some (Inl e)) = Some (Inl e)"
  "awaited a (Some (Inr u)) = Some (Inr a)"
  "awaited a None = None"
  by (simp_all add: awaited_def)

lemma awaited_Inr [simp]:
  "(awaited a r = Some (Inr b)) = (b = a \<and> r = Some (Inr ()))"
  "(Some (Inr b) = awaited a r) = (b = a \<and> r = Some (Inr ()))"
  by (auto simp: awaited_def split: option.splits sum.splits)

lemma awaited_Inl [simp]:
  "(awaited a r = Some (Inl e)) = (r = Some (Inl e))"
  "(Some (Inl e) = awaited a r) = (r = Some (Inl e))"
  by (auto simp: awaited_def split: option.splits sum.splits)

text \<open>
  C7. On a pool whose map holds handles of session objects: when \<open>get\<close> has returned
  a session for an identifier, the next \<open>get\<close> for that identifier, with any
  descriptor and whatever the environment would answer, returns the same session object and
  leaves the pool and every session as they are; so it builds no client and opens no
  transport.
\<close>

theorem get_twice:
  assumes ok: "pool_ok p"
      and first: "get ident d now env p = (Some (Inr a), p1)"
  shows "get ident d' now' env' p1 = (Some (Inr a), p1)"
proof (cases "map_of (connections p) ident")
  case None
  obtain r s' where c: "connect env (new_SSHConnection d (Some (poolCommandTimeout p)) now) = (r, s')"
    by force
  from get_new [OF None c] first
  have a: "a = length (sessions p)" and r: "r = Some (Inr ())"
    and p1: "p1 = p\<lparr>connections := connections p @ [(ident, length (sessions p))],
                      sessions := sessions p @ [s']\<rparr>"
    by auto
  have "\<not> isConnected (new_SSHConnection d (Some (poolCommandTimeout p)) now)"
    by (simp add: new_SSHConnection_def)
  with connect_resolved [of env "new_SSHConnection d (Some (poolCommandTimeout p)) now" "()" s'] c r
  have act: "isActive s'" by simp
  have m: "map_of (connections p1) ident = Some a"
    using map_of_append_absent [OF None] by (simp add: p1 a del: map_of_append)
  show ?thesis
    using act by (simp add: get_existing [OF m]) (simp add: p1 a)
next
  case (Some a0)
  note ex = get_existing [OF Some, of d now env]
  from pool_ok_mapped [OF ok Some] have lt: "a0 < length (sessions p)" .
  show ?thesis
  proof (cases "isActive (sessions p ! a0)")
    case True
    with ex first have "a = a0" "p1 = p" by auto
    with Some True show ?thesis by (simp add: get_existing)
  next
    case False
    obtain r s' where c: "connect env (sessions p ! a0) = (r, s')" by force
    from ex first False c
    have a: "a = a0" and r: "r = Some (Inr ())"
      and p1: "p1 = p\<lparr>sessions := (sessions p)[a0 := s']\<rparr>"
      by auto
    have m: "map_of (connections p1) ident = Some a0" using Some by (simp add: p1)
    have s1: "sessions p1 ! a0 = s'" using lt by (simp add: p1)
    from connect_resolved [of env "sessions p ! a0" "()" s'] c r
    consider (same) "isConnected (sessions p ! a0)" "s' = sessions p ! a0" | (act) "isActive s'"
      by auto
    then show ?thesis
    proof cases
      case same
      then have "connect env' s' = (Some (Inr ()), s')"
        by (simp add: connect_def connect_start_unfold)
      with same False show ?thesis
        by (simp add: get_existing [OF m] s1 a) (simp add: p1)
    next
      case act
      then show ?thesis by (simp add: get_existing [OF m] s1 a)
    qed
  qed
qed

theorem get_twice_witness:
  "pool_ok (new_SSHConnectionPool None)
   \<and> get ''web'' demo_config 0 demo_ready (new_SSHConnectionPool None) = (Some (Inr 0), demo_pool)
   \<and> get ''web'' demo_config 9 demo_refused demo_pool = (Some (Inr 0), demo_pool)"
proof -
  have h1: "pool_ok (new_SSHConnectionPool None)"
    by (simp add: pool_ok_def new_SSHConnectionPool_def)
  have h2: "get ''web'' demo_config 0 demo_ready (new_SSHConnectionPool None) = (Some (Inr 0), demo_pool)"
    by code_simp
  from get_twice [OF h1 h2, of demo_config 9 demo_refused] h1 h2 show ?thesis by simp
qed

lemma pool_ok_new: "pool_ok (new_SSHConnectionPool tmo)"
  by (simp add: pool_ok_def new_SSHConnectionPool_def)

lemma pool_ok_get: 
  assumes "pool_ok p" shows "pool_ok (snd (get ident cfg now env p))"
proof (cases "map_of (connections p) ident")
  case None
  obtain r s' where c: "connect env (new_SSHConnection cfg (Some (poolCommandTimeout p)) now) = (r, s')"
    by force
  show ?thesis using assms by (auto simp: get_new [OF None c] pool_ok_def)
next
  case (Some a)
  show ?thesis using assms by (auto simp: get_existing [OF Some] pool_ok_def)
qed

text \<open>
  C1, as the code has it. When \<open>get\<close> builds a new session and the first
  \<open>connect\<close> of that session rejects, the error is the result of \<open>get\<close>,
  and the session stays in the map: the identifier is mapped to the new session object,
  which is not active, and the next \<open>get\<close> for the identifier calls
  \<open>connect\<close> on that same object instead of building another.
\<close>

theorem get_keeps_failed_session:
  assumes absent: "map_of (connections p) ident = None"
      and rejects: "connect env (new_SSHConnection cfg (Some (poolCommandTimeout p)) now) = (Some (Inl e), s')"
  shows "fst (get ident cfg now env p) = Some (Inl e)
       \<and> map_of (connections (snd (get ident cfg now env p))) ident = Some (length (sessions p))
       \<and> sessions (snd (get ident cfg now env p)) ! length (sessions p) = s'
       \<and> \<not> isActive s'
       \<and> get ident cfg2 now2 env2 (snd (get ident cfg now env p)) =
           (awaited (length (sessions p)) (fst (connect env2 s')),
            (snd (get ident cfg now env p))\<lparr>sessions := sessions p @ [snd (connect env2 s')]\<rparr>)"
proof -
  let ?a = "length (sessions p)"
  let ?p' = "p\<lparr>connections := connections p @ [(ident, ?a)], sessions := sessions p @ [s']\<rparr>"
  have g: "get ident cfg now env p = (Some (Inl e), ?p')"
    using get_new [OF absent rejects] by simp
  have m: "map_of (connections ?p') ident = Some ?a"
    using map_of_append_absent [OF absent] by (simp del: map_of_append)
  have inact: "\<not> isActive s'"
    using connect_rejected [OF rejects] by (simp add: isActive_def)
  show ?thesis
    unfolding g using m inact
    by (simp add: get_existing [OF m] del: map_of_append)
qed

theorem get_keeps_failed_session_witness:
  "map_of (connections (new_SSHConnectionPool None)) ''web'' = None
   \<and> fst (get ''web'' demo_config 0 demo_refused (new_SSHConnectionPool None)) =
       Some (Inl (JsError ''refused''))
   \<and> map_of (connections demo_failed_pool) ''web'' = Some 0
   \<and> \<not> isActive (sessions demo_failed_pool ! 0)
   \<and> fst (get ''web'' demo_config 9 demo_ready demo_failed_pool) = Some (Inr 0)"
proof -
  let ?s' = "snd (connect demo_refused (new_SSHConnection demo_config
               (Some (poolCommandTimeout (new_SSHConnectionPool None))) 0))"
  have h1: "map_of (connections (new_SSHConnectionPool None)) ''web'' = None"
    by (simp add: new_SSHConnectionPool_def)
  have h2: "connect demo_refused (new_SSHConnection demo_config
               (Some (poolCommandTimeout (new_SSHConnectionPool None))) 0) =
             (Some (Inl (JsError ''refused'')), ?s')"
    by code_simp
  have h3: "fst (connect demo_ready ?s') = Some (Inr ())"
    by code_simp
  from get_keeps_failed_session [OF h1 h2, of demo_config 9 demo_ready] h1 h3
  show ?thesis
    by (simp add: demo_failed_pool_def new_SSHConnectionPool_def)
qed

text \<open>
  The sentence of the specification, that the pool does not retain the session when the
  first \<open>connect\<close> fails, does not hold: after a \<open>get\<close> whose first
  \<open>connect\<close> is refused by the transport, the map does hold a session for the
  identifier.
\<close>

theorem get_failure_removes_session_counterexample:
  "map_of (connections (new_SSHConnectionPool None)) ''web'' = None
   \<and> fst (get ''web'' demo_config 0 demo_refused (new_SSHConnectionPool None)) =
       Some (Inl (JsError ''refused''))
   \<and> map_of (connections (snd (get ''web'' demo_config 0 demo_refused (new_SSHConnectionPool None))))
        ''web'' \<noteq> None"
  by code_simp

text \<open>
  C10. On a pool whose map holds handles of session objects, \<open>get\<close> for an
  identifier that is mapped does the same whatever descriptor (and construction time) it is
  given, and the session keeps its \<open>config\<close>, also when it was not active and
  \<open>get\<close> reconnected it. Only when the identifier is not mapped is the descriptor
  used: it becomes the \<open>config\<close> of the new session.
\<close>

theorem get_ignores_descriptor:
  assumes ok: "pool_ok p"
  shows "case map_of (connections p) ident of
           None \<Rightarrow> config (sessions (snd (get ident cfg now env p)) ! length (sessions p)) = cfg
         | Some a \<Rightarrow> get ident cfg now env p = get ident cfg' now' env p
                    \<and> config (sessions (snd (get ident cfg now env p)) ! a) = config (sessions p ! a)"
proof (cases "map_of (connections p) ident")
  case None
  obtain r s' where c: "connect env (new_SSHConnection cfg (Some (poolCommandTimeout p)) now) = (r, s')"
    by force
  have "config (snd (connect env (new_SSHConnection cfg (Some (poolCommandTimeout p)) now))) =
          config (new_SSHConnection cfg (Some (poolCommandTimeout p)) now)"
    by (rule connect_frame)
  then have "config s' = cfg"
    unfolding c by (simp add: new_SSHConnection_def)
  then show ?thesis by (simp add: None get_new [OF None c])
next
  case (Some a)
  from pool_ok_mapped [OF ok Some] have "a < length (sessions p)" .
  then show ?thesis by (simp add: Some get_existing [OF Some])
qed

theorem get_ignores_descriptor_witness:
  "pool_ok demo_failed_pool
   \<and> map_of (connections demo_failed_pool) ''web'' = Some 0
   \<and> get ''web'' demo_other_config 10 demo_ready demo_failed_pool =
       get ''web'' demo_config 9 demo_ready demo_failed_pool
   \<and> config (sessions (snd (get ''web'' demo_other_config 10 demo_ready demo_failed_pool)) ! 0) =
       demo_config"
proof -
  have h1: "pool_ok demo_failed_pool"
    unfolding demo_failed_pool_def by (rule pool_ok_get) (rule pool_ok_new)
  have h2: "map_of (connections demo_failed_pool) ''web'' = Some 0"
    by code_simp
  have h3: "config (sessions demo_failed_pool ! 0) = demo_config"
    by code_simp
  note t = get_ignores_descriptor [OF h1, of "''web''" demo_other_config 10 demo_ready demo_config 9,
      unfolded h2 option.case h3]
  from t h1 h2 show ?thesis by blast
qed

section \<open>disconnect and closeAll\<close>

lemma disconnect_fields [simp]:
  "isConnected (disconnect s) = False"
  "client (disconnect s) = None"
  "reconnectTimer (disconnect s) = None"
  "config (disconnect s) = config s"
  "commandTimeout (disconnect s) = commandTimeout s"
  "lastActivity (disconnect s) = lastActivity s"
  "channels (disconnect s) = channels s"
  "length (clients (disconnect s)) = length (clients s)"
  "length (timers (disconnect s)) = length (timers s)"
  by (simp_all add: disconnect_def Let_def clearTimeout_def end_client_def removeAllListeners_def
        split: option.splits)

lemma disconnect_idem: "disconnect (disconnect s) = disconnect s"
  by (simp add: disconnect_def Let_def clearTimeout_def end_client_def removeAllListeners_def
        split: option.splits)

lemma fold_disconnect_frame [simp]:
  "connections (fold (\<lambda>a q. q\<lparr>sessions := upd a disconnect (sessions q)\<rparr>) as p) = connections p"
  "poolCommandTimeout (fold (\<lambda>a q. q\<lparr>sessions := upd a disconnect (sessions q)\<rparr>) as p) = poolCommandTimeout p"
  "length (sessions (fold (\<lambda>a q. q\<lparr>sessions := upd a disconnect (sessions q)\<rparr>) as p)) = length (sessions p)"
  by (induction as arbitrary: p) simp_all

lemma fold_disconnect_nth:
  "b < length (sessions p) \<Longrightarrow>
   sessions (fold (\<lambda>a q. q\<lparr>sessions := upd a disconnect (sessions q)\<rparr>) as p) ! b =
     (if b \<in> set as then disconnect (sessions p ! b) else sessions p ! b)"
proof (induction as arbitrary: p)
  case Nil
  then show ?case by simp
next
  case (Cons a as)
  let ?q = "p\<lparr>sessions := upd a disconnect (sessions p)\<rparr>"
  have "b < length (sessions ?q)" using Cons.prems by simp
  from Cons.IH [OF this] Cons.prems show ?case
    by (cases "a = b") (simp_all add: disconnect_idem)
qed

text \<open>
  C2, as the code has it. \<open>closeAll\<close> empties the map, and every session object
  whose handle was in the map is left as \<open>disconnect\<close> leaves it; the other session
  objects are not touched.
\<close>

theorem closeAll_disconnects_and_clears:
  assumes "b < length (sessions p)"
  shows "connections (closeAll p) = []
       \<and> sessions (closeAll p) ! b =
           (if b \<in> snd ` set (connections p) then disconnect (sessions p ! b) else sessions p ! b)"
  using assms by (simp add: closeAll_def fold_disconnect_nth)

theorem closeAll_disconnects_and_clears_witness:
  "0 < length (sessions demo_pool)
   \<and> isActive (sessions demo_pool ! 0)
   \<and> connections (closeAll demo_pool) = []
   \<and> sessions (closeAll demo_pool) ! 0 = disconnect (sessions demo_pool ! 0)
   \<and> \<not> isActive (sessions (closeAll demo_pool) ! 0)"
proof -
  have h1: "0 < length (sessions demo_pool)" by code_simp
  have h2: "0 \<in> snd ` set (connections demo_pool)" by code_simp
  have h3: "isActive (sessions demo_pool ! 0)" by code_simp
  from closeAll_disconnects_and_clears [OF h1] h1 h2 h3 show ?thesis
    by (simp add: isActive_def)
qed

text \<open>
  The sentence of the specification, that \<open>closeAll\<close> does not remove the sessions
  from the map, does not hold: the entry of a mapped identifier is gone afterwards.
\<close>

theorem closeAll_keeps_mapping_counterexample:
  "map_of (connections demo_pool) ''web'' = Some 0
   \<and> map_of (connections (closeAll demo_pool)) ''web'' = None
   \<and> connections (closeAll demo_pool) \<noteq> connections demo_pool"
  by code_simp

section \<open>Reconnecting\<close>

lemma scheduleReconnect_armed:
  assumes "now - lastActivity s < 30 * 60 * 1000"
  shows "reconnectTimer (scheduleReconnect now s) = Some (length (timers s))"
    and "length (timers (scheduleReconnect now s)) = Suc (length (timers s))"
    and "timers (scheduleReconnect now s) ! length (timers s) =
           \<lparr>delay = 5000, callback = Reconnect, pending = True\<rparr>"
  using assms
  by (simp_all add: scheduleReconnect_def clearTimeout_def setTimeout_def Let_def split: option.splits)

lemma scheduleReconnect_idle:
  assumes "\<not> now - lastActivity s < 30 * 60 * 1000"
  shows "scheduleReconnect now s =
           (case reconnectTimer s of Some t \<Rightarrow> clearTimeout t s | None \<Rightarrow> s)"
  using assms
  by (simp add: scheduleReconnect_def Let_def clearTimeout_def split: option.splits)

lemma scheduleReconnect_isConnected:
  "timers (scheduleReconnect now (s\<lparr>isConnected := b\<rparr>)) = timers (scheduleReconnect now s)"
  "reconnectTimer (scheduleReconnect now (s\<lparr>isConnected := b\<rparr>)) =
     reconnectTimer (scheduleReconnect now s)"
  by (simp_all add: scheduleReconnect_def clearTimeout_def setTimeout_def Let_def
        split: option.splits)

lemma settled_kept [simp]:
  "settled (clients (removeListener c ev l s) ! i) = settled (clients s ! i)"
  "settled (clients (cleanup c s) ! i) = settled (clients s ! i)"
  by (cases "i = c"; cases "c < length (clients s)";
      simp add: removeListener_def cleanup_def upd_def)+

text \<open>
  C9. When the transport of a \<open>connect\<close> call emits an error while the client of
  the call carries the long-lived error listener and the one-shot listener of the call,
  and the promise of the call is not settled, both listeners run, the long-lived one
  first. The call rejects with the error, the session is not connected, and its timers and
  its \<open>reconnectTimer\<close> are what \<open>scheduleReconnect\<close> makes of them at that
  time: if less than 30 minutes have passed since \<open>lastActivity\<close>, a new reconnect
  timer of 5000 ms is pending, and when that timer fires, \<open>connect\<close> is called
  again. Otherwise no timer was added. The client carries the two listeners, with the
  promise not settled, whenever a call of \<open>connect\<close> has opened the transport and
  nothing else has happened to the session since the call began.
\<close>

theorem failed_connect_schedules_reconnect:
  assumes att: "listeners_for c EvError s = [LostError, OnError]"
      and pend: "settled_of c s = None"
  shows "settled_of c (emit c EvError e now s) = Some (Inl e)
       \<and> \<not> isConnected (emit c EvError e now s)
       \<and> timers (emit c EvError e now s) = timers (scheduleReconnect now s)
       \<and> reconnectTimer (emit c EvError e now s) = reconnectTimer (scheduleReconnect now s)
       \<and> (if now - lastActivity s < 30 * 60 * 1000
          then reconnectTimer (emit c EvError e now s) = Some (length (timers s))
             \<and> is_pending (length (timers s)) (emit c EvError e now s)
             \<and> timers (emit c EvError e now s) ! length (timers s) =
                 \<lparr>delay = 5000, callback = Reconnect, pending = True\<rparr>
             \<and> fire_begin (length (timers s)) (emit c EvError e now s) =
                 snd (connect_begin (clearTimeout (length (timers s)) (emit c EvError e now s)))
          else length (timers (emit c EvError e now s)) = length (timers s))
       \<and> (\<forall>rf s0 c0 s1. connect_start rf s0 = (Waiting c0, s1) \<longrightarrow>
             listeners_for c0 EvError s1 = [LostError, OnError] \<and> settled_of c0 s1 = None)"
proof -
  let ?s' = "emit c EvError e now s"
  have c: "c < length (clients s)"
    using att by (cases "c < length (clients s)") (simp_all add: listeners_for_def)
  have em: "?s' = invoke c EvError e now OnError (scheduleReconnect now (s\<lparr>isConnected := False\<rparr>))"
    by (simp add: emit_def att invoke_def)
  have t: "timers ?s' = timers (scheduleReconnect now s)"
    and r: "reconnectTimer ?s' = reconnectTimer (scheduleReconnect now s)"
    and nc: "\<not> isConnected ?s'"
    by (simp_all add: em invoke_def scheduleReconnect_isConnected)
  have st: "settled_of c ?s' = Some (Inl e)"
    using c pend by (simp add: em invoke_def settled_of_def settle_connect_def)
  have per_call: "listeners_for c0 EvError s1 = [LostError, OnError] \<and> settled_of c0 s1 = None"
    if w: "connect_start rf s0 = (Waiting c0, s1)" for rf s0 c0 s1
  proof -
    note cw = connect_start_waiting [OF w]
    show ?thesis
      by (subst (1 2) cw(3)) (simp add: listeners_for_def settled_of_def cw(1) fresh_listeners_def)
  qed
  show ?thesis
  proof (cases "now - lastActivity s < 30 * 60 * 1000")
    case True
    note a = scheduleReconnect_armed [OF True]
    have p: "is_pending (length (timers s)) ?s'"
      and cb: "callback (timers ?s' ! length (timers s)) = Reconnect"
      using a by (simp_all add: t is_pending_def)
    have f: "fire_begin (length (timers s)) ?s' =
             snd (connect_begin (clearTimeout (length (timers s)) ?s'))"
      using p cb by (simp add: fire_begin_def)
    from st nc t r True a p f per_call show ?thesis by simp
  next
    case False
    have "length (timers (scheduleReconnect now s)) = length (timers s)"
      using False by (simp add: scheduleReconnect_idle clearTimeout_def split: option.splits)
    with st nc t r False per_call show ?thesis by simp
  qed
qed

text \<open>
  A new session whose first \<open>connect\<close> is refused: the call rejects, and a
  reconnect timer is pending.
\<close>

theorem failed_connect_schedules_reconnect_witness:
  "listeners_for 0 EvError (snd (connect_begin (new_SSHConnection demo_config None 0))) =
     [LostError, OnError]
   \<and> settled_of 0 (snd (connect_begin (new_SSHConnection demo_config None 0))) = None
   \<and> settled_of 0 (emit 0 EvError (JsError ''refused'') 5
        (snd (connect_begin (new_SSHConnection demo_config None 0)))) = Some (Inl (JsError ''refused''))
   \<and> \<not> isConnected (emit 0 EvError (JsError ''refused'') 5
        (snd (connect_begin (new_SSHConnection demo_config None 0))))
   \<and> reconnectTimer (emit 0 EvError (JsError ''refused'') 5
        (snd (connect_begin (new_SSHConnection demo_config None 0)))) = Some 0
   \<and> is_pending 0 (emit 0 EvError (JsError ''refused'') 5
        (snd (connect_begin (new_SSHConnection demo_config None 0))))"
proof -
  let ?s = "snd (connect_begin (new_SSHConnection demo_config None 0))"
  have h1: "listeners_for 0 EvError ?s = [LostError, OnError]" by code_simp
  have h2: "settled_of 0 ?s = None" by code_simp
  have h3: "5 - lastActivity ?s < 30 * 60 * 1000" by (simp add: new_SSHConnection_def)
  have h4: "length (timers ?s) = 0" by (simp add: new_SSHConnection_def)
  note t = failed_connect_schedules_reconnect [OF h1 h2, of "JsError ''refused''" 5,
             unfolded if_P [OF h3] h4]
  from t h1 h2 show ?thesis by blast
qed

text \<open>
  The long-lived listener does not run for every call that the error of its transport
  rejects. A session with a key file begins \<open>connect\<close>, which registers the
  long-lived listeners on its new client and waits for the file. \<open>disconnect\<close> is
  called and takes all listeners off that client. The file system answers: the call
  registers its one-shot listeners on the client and opens the transport. The transport
  emits an error, 9 ms after the last activity: the call rejects, and no timer is armed.
\<close>

theorem failed_connect_without_reconnect_counterexample:
  "listeners_for 0 EvError
       (run [ConnectBegins, CallDisconnect, KeyRead 0 (Inr ''key'')] demo_key_session) = [OnError]
   \<and> settled_of 0
       (run [ConnectBegins, CallDisconnect, KeyRead 0 (Inr ''key'')] demo_key_session) = None
   \<and> settled_of 0
       (run [ConnectBegins, CallDisconnect, KeyRead 0 (Inr ''key''),
             TransportEmits 0 EvError (JsError ''refused'') 9] demo_key_session) =
       Some (Inl (JsError ''refused''))
   \<and> 9 - lastActivity
       (run [ConnectBegins, CallDisconnect, KeyRead 0 (Inr ''key'')] demo_key_session) < 30 * 60 * 1000
   \<and> timers
       (run [ConnectBegins, CallDisconnect, KeyRead 0 (Inr ''key''),
             TransportEmits 0 EvError (JsError ''refused'') 9] demo_key_session) = []
   \<and> reconnectTimer
       (run [ConnectBegins, CallDisconnect, KeyRead 0 (Inr ''key''),
             TransportEmits 0 EvError (JsError ''refused'') 9] demo_key_session) = None"
  by code_simp

section \<open>A call that nothing interrupts is a history of segments\<close>

lemma run_Nil [simp]: "run [] s = s"
  by (simp add: run_def)

lemma run_Cons [simp]: "run (a # acts) s = run acts (step a s)"
  by (simp add: run_def)

lemma run_append: "run (xs @ ys) s = run ys (run xs s)"
  by (simp add: run_def)

lemma run_stream_is_run: "run_stream ch evs s = run (map (ChannelEvent ch) evs) s"
  by (induction evs arbitrary: s) (simp_all add: run_stream_def)

lemma connect_rest:
  "\<exists>rest. list_all segment rest \<and> snd (connect env s) = run rest (snd (connect_begin s))"
proof (cases "connect_begin s")
  case (Pair b s1)
  have emits: "\<exists>rest. list_all segment rest \<and> transport_replies c (reply env) (reply_at env) s' = run rest s'"
    for c s'
  proof (cases "reply env")
    case Ready
    show ?thesis
      by (rule exI [of _ "[TransportEmits c EvReady (JsError []) (reply_at env)]"])
         (simp add: transport_replies_def Ready)
  next
    case (Failure e)
    show ?thesis
      by (rule exI [of _ "[TransportEmits c EvError e (reply_at env)]"])
         (simp add: transport_replies_def Failure)
  qed
  show ?thesis
  proof (cases b)
    case (Finished r)
    show ?thesis
      by (rule exI [of _ "[]"]) (simp add: connect_def connect_start_def Pair Finished)
  next
    case (Opened c)
    from emits [of c s1] obtain rest
      where "list_all segment rest" "transport_replies c (reply env) (reply_at env) s1 = run rest s1"
      by blast
    then show ?thesis
      by (intro exI [of _ rest]) (simp add: connect_def connect_start_def Pair Opened Let_def)
  next
    case (Reading c)
    show ?thesis
    proof (cases "readFile env (get_str (privateKeyPath (config s1)))")
      case (Inl e)
      show ?thesis
        by (rule exI [of _ "[KeyRead c (Inl e)]"])
           (simp add: connect_def connect_start_def Pair Reading Inl)
    next
      case (Inr key)
      from emits [of c "connect_resume c (Inr key) s1"] obtain rest
        where r: "list_all segment rest"
          "transport_replies c (reply env) (reply_at env) (connect_resume c (Inr key) s1) =
             run rest (connect_resume c (Inr key) s1)"
        by blast
      show ?thesis
        by (rule exI [of _ "KeyRead c (Inr key) # rest"])
           (simp add: connect_def connect_start_def Pair Reading Inr Let_def r)
    qed
  qed
qed

lemma connect_segments:
  "\<exists>acts. list_all segment acts \<and> snd (connect env s) = run acts s"
proof -
  from connect_rest [of env s] obtain rest
    where "list_all segment rest" "snd (connect env s) = run rest (snd (connect_begin s))"
    by blast
  then show ?thesis
    by (intro exI [of _ "ConnectBegins # rest"]) simp
qed

lemma fire_segments:
  "\<exists>acts. list_all segment acts \<and> snd (fire t env s) = run acts s"
proof (cases "is_pending t s")
  case False
  show ?thesis by (rule exI [of _ "[]"]) (simp add: fire_def False)
next
  case True
  show ?thesis
  proof (cases "callback (timers s ! t)")
    case Reconnect
    from connect_rest [of env "clearTimeout t s"] obtain rest
      where "list_all segment rest"
        "snd (connect env (clearTimeout t s)) = run rest (snd (connect_begin (clearTimeout t s)))"
      by blast
    then show ?thesis
      by (intro exI [of _ "TimerBegins t # rest"]) (simp add: fire_def fire_begin_def True Reconnect)
  next
    case (ExecTimeout ch)
    show ?thesis
      by (rule exI [of _ "[TimerBegins t]"]) (simp add: fire_def fire_begin_def True ExecTimeout)
  qed
qed

lemma ensure_connected_segments:
  "\<exists>rest. list_all segment rest \<and>
     snd (ensure_connected env (s\<lparr>lastActivity := called_at env\<rparr>)) =
       run rest (exec_begin (called_at env) s)"
proof (cases "\<not> isConnected s \<or> client s = None")
  case True
  from connect_rest [of "connecting env" "s\<lparr>lastActivity := called_at env\<rparr>"] obtain rest
    where "list_all segment rest"
      "snd (connect (connecting env) (s\<lparr>lastActivity := called_at env\<rparr>)) =
         run rest (snd (connect_begin (s\<lparr>lastActivity := called_at env\<rparr>)))"
    by blast
  with True show ?thesis
    by (intro exI [of _ rest]) (auto simp: ensure_connected_def exec_begin_def Let_def)
next
  case False
  then show ?thesis
    by (intro exI [of _ "[]"]) (auto simp: ensure_connected_def exec_begin_def Let_def)
qed

lemma open_channel_segments:
  "\<exists>rest. list_all segment rest \<and> snd (open_channel cmd env s) = run rest s"
proof -
  have "snd (open_channel cmd env s) = s
        \<or> snd (open_channel cmd env s) = snd (exec_callback cmd (commandTimeout s) s)"
    by (auto simp: open_channel_def split: option.splits prod.splits)
  then show ?thesis
  proof
    assume "snd (open_channel cmd env s) = s"
    then show ?thesis by (intro exI [of _ "[]"]) simp
  next
    assume "snd (open_channel cmd env s) = snd (exec_callback cmd (commandTimeout s) s)"
    then show ?thesis by (intro exI [of _ "[ChannelOpens cmd]"]) simp
  qed
qed

lemma list_all_segment_channel: "list_all segment (map (ChannelEvent ch) evs)"
  by (induction evs) simp_all

lemma exec_segments:
  "\<exists>acts. list_all segment acts \<and> snd (exec cmd env s) = run acts s"
proof -
  let ?s0 = "s\<lparr>lastActivity := called_at env\<rparr>"
  obtain r s1 where ec: "ensure_connected env ?s0 = (r, s1)" by force
  from ensure_connected_segments [of env s] ec obtain rest1
    where r1: "list_all segment rest1" "s1 = run rest1 (exec_begin (called_at env) s)"
    by auto
  from open_channel_segments [of cmd env s1] obtain rest2
    where r2: "list_all segment rest2" "snd (open_channel cmd env s1) = run rest2 s1"
    by blast
  have s1: "s1 = run (ExecBegins (called_at env) # rest1) s" using r1 by simp
  obtain r3 s3 where eo: "exec_open cmd env s = (r3, s3)" by force
  have "s3 = s1 \<or> s3 = snd (open_channel cmd env s1)"
    using eo by (auto simp: exec_open_def ec split: option.splits sum.splits)
  then have "\<exists>acts. list_all segment acts \<and> s3 = run acts s"
  proof
    assume "s3 = s1"
    with s1 r1 show ?thesis by (intro exI [of _ "ExecBegins (called_at env) # rest1"]) simp
  next
    assume "s3 = snd (open_channel cmd env s1)"
    with s1 r1 r2 show ?thesis
      by (intro exI [of _ "(ExecBegins (called_at env) # rest1) @ rest2"])
         (simp add: run_append)
  qed
  then obtain acts3 where a3: "list_all segment acts3" "s3 = run acts3 s" by blast
  have "snd (exec cmd env s) = s3 \<or> (\<exists>ch. snd (exec cmd env s) = run_stream ch (stream env) s3)"
    by (auto simp: exec_def eo Let_def split: option.splits sum.splits)
  then show ?thesis
  proof
    assume "snd (exec cmd env s) = s3"
    with a3 show ?thesis by blast
  next
    assume "\<exists>ch. snd (exec cmd env s) = run_stream ch (stream env) s3"
    then obtain ch where "snd (exec cmd env s) = run_stream ch (stream env) s3" by blast
    with a3 show ?thesis
      by (intro exI [of _ "acts3 @ map (ChannelEvent ch) (stream env)"])
         (simp add: run_append run_stream_is_run list_all_segment_channel)
  qed
qed

text \<open>
  So what every segment preserves is preserved by every step, and by every history.
\<close>

lemma step_invariant:
  assumes seg: "\<And>a s. segment a \<Longrightarrow> I s \<Longrightarrow> I (step a s)"
      and i: "I s"
  shows "I (step a s)"
proof -
  have runs: "I (run acts s')" if "list_all segment acts" "I s'" for acts s'
    using that by (induction acts arbitrary: s') (simp_all add: seg)
  show ?thesis
  proof (cases "segment a")
    case True
    with seg i show ?thesis by simp
  next
    case False
    then have "\<exists>acts. list_all segment acts \<and> step a s = run acts s"
      using connect_segments exec_segments fire_segments by (cases a) simp_all
    with runs i show ?thesis by auto
  qed
qed

lemma run_invariant:
  assumes seg: "\<And>a s. segment a \<Longrightarrow> I s \<Longrightarrow> I (step a s)"
      and i: "I s"
  shows "I (run acts s)"
  using i by (induction acts arbitrary: s) (simp_all add: step_invariant [of I, OF seg])


section \<open>What a segment does to a client built earlier\<close>

lemma clients_unchanged [simp]:
  "clients (clearTimeout t s) = clients s"
  "clients (snd (setTimeout cb d s)) = clients s"
  "clients (snd (exec_callback cmd tmo s)) = clients s"
  "clients (settle_exec ch r s) = clients s"
  "clients (on_data ch dat s) = clients s"
  "clients (on_stderr_data ch dat s) = clients s"
  "clients (on_close ch code now s) = clients s"
  "clients (on_timeout ch s) = clients s"
  by (simp_all add: clearTimeout_def setTimeout_def exec_callback_def settle_exec_def on_data_def
        on_stderr_data_def on_close_def on_timeout_def Let_def)

lemma clients_stream_step [simp]: "clients (stream_step ch e s) = clients s"
  by (cases e) simp_all

lemma clients_run_stream [simp]: "clients (run_stream ch evs s) = clients s"
  unfolding run_stream_def by (induction evs arbitrary: s) simp_all

lemma other_client [simp]:
  "i \<noteq> c \<Longrightarrow> clients (addListener c ev l s) ! i = clients s ! i"
  "i \<noteq> c \<Longrightarrow> clients (set_reading c r s) ! i = clients s ! i"
  "i \<noteq> c \<Longrightarrow> clients (open_transport c cfg s) ! i = clients s ! i"
  "i \<noteq> c \<Longrightarrow> clients (promise_executor c cfg s) ! i = clients s ! i"
  "i \<noteq> c \<Longrightarrow> clients (removeListener c ev l s) ! i = clients s ! i"
  "i \<noteq> c \<Longrightarrow> clients (settle_connect c res s) ! i = clients s ! i"
  "i \<noteq> c \<Longrightarrow> clients (removeAllListeners c s) ! i = clients s ! i"
  "i \<noteq> c \<Longrightarrow> clients (end_client c s) ! i = clients s ! i"
  by (simp_all add: addListener_def set_reading_def open_transport_def promise_executor_def
        removeListener_def settle_connect_def removeAllListeners_def end_client_def)

text \<open>
  \<open>connect_begin\<close> leaves a client built earlier as it is, or as \<open>detach_previous\<close>
  leaves it: without listeners and ended.
\<close>

lemma detach_previous_client:
  "c < length (clients s) \<Longrightarrow>
   clients (detach_previous s) ! c = clients s ! c
   \<or> clients (detach_previous s) ! c = (clients s ! c)\<lparr>listeners := [], ended := True\<rparr>"
  by (cases "client s = Some c")
     (auto simp: detach_previous_def end_client_def removeAllListeners_def split: option.splits)

lemma connect_begin_client:
  assumes c: "c < length (clients s)"
  shows "clients (snd (connect_begin s)) ! c = clients s ! c
       \<or> clients (snd (connect_begin s)) ! c = (clients s ! c)\<lparr>listeners := [], ended := True\<rparr>"
proof (cases "isConnected s")
  case True
  then show ?thesis by (simp add: connect_begin_def)
next
  case False
  define s1 where "s1 = detach_previous s"
  define k where "k = length (clients s1)"
  define s2 where "s2 = s1\<lparr>clients := clients s1 @ [new_Client], client := Some k\<rparr>"
  define s3 where "s3 = addListener k EvClose LostClose
                   (addListener k EvEnd LostEnd (addListener k EvError LostError s2))"
  have ne: "c \<noteq> k" and c1: "c < length (clients s1)" using c by (simp_all add: k_def s1_def)
  have old: "clients s3 ! c = clients s1 ! c"
    using ne c1 by (simp add: s3_def s2_def nth_append)
  have "clients (snd (connect_begin s)) ! c = clients s3 ! c"
    using False ne
    unfolding connect_begin_def s1_def [symmetric] Let_def k_def [symmetric] s2_def [symmetric]
      s3_def [symmetric]
    by simp
  with old detach_previous_client [OF c] show ?thesis by (simp add: s1_def)
qed

lemma connect_begin_length: "length (clients s) \<le> length (clients (snd (connect_begin s)))"
  by (simp add: connect_begin_def Let_def)

lemma connect_resume_other:
  "c' \<noteq> c \<Longrightarrow> clients (connect_resume c' r s) ! c = clients s ! c"
  by (simp add: connect_resume_def split: option.splits sum.splits)

lemma connect_resume_not_reading:
  "reading (clients s ! c) = None \<Longrightarrow> connect_resume c r s = s"
  by (simp add: connect_resume_def)

lemma disconnect_client:
  "c < length (clients s) \<Longrightarrow>
   clients (disconnect s) ! c = clients s ! c
   \<or> clients (disconnect s) ! c = (clients s ! c)\<lparr>listeners := [], ended := True\<rparr>"
  by (cases "client s = Some c")
     (auto simp: disconnect_def Let_def end_client_def removeAllListeners_def clearTimeout_def
        split: option.splits)

section \<open>A client without listeners stays without\<close>

lemma silent_same_clients: "clients s' = clients s \<Longrightarrow> silent c s' = silent c s"
  by (simp add: silent_def)

lemma silent_fields [simp]:
  "silent c (scheduleReconnect now s) = silent c s"
  "silent c (s\<lparr>isConnected := b\<rparr>) = silent c s"
  "silent c (s\<lparr>lastActivity := t\<rparr>) = silent c s"
  "silent c (clearTimeout u s) = silent c s"
  "silent c (stream_step ch e s) = silent c s"
  "silent c (snd (exec_callback cmd tmo s)) = silent c s"
  "silent c (on_timeout ch s) = silent c s"
  by (simp_all add: silent_def)

lemma silent_removeListener: "silent c s \<Longrightarrow> silent c (removeListener c' ev l s)"
  by (cases "c' = c") (simp_all add: silent_def removeListener_def)

lemma silent_cleanup: "silent c s \<Longrightarrow> silent c (cleanup c' s)"
  by (simp add: cleanup_def silent_removeListener)

lemma silent_settle_connect: "silent c s \<Longrightarrow> silent c (settle_connect c' r s)"
  by (cases "c' = c") (simp_all add: silent_def settle_connect_def)

lemma silent_invoke: "silent c s \<Longrightarrow> silent c (invoke c' ev err now l s)"
  by (cases l) (simp_all add: invoke_def silent_removeListener silent_cleanup silent_settle_connect)

lemma silent_fold_invoke: "silent c s \<Longrightarrow> silent c (fold (invoke c' ev err now) ls s)"
  by (induction ls arbitrary: s) (simp_all add: silent_invoke)

lemma silent_emit: "silent c s \<Longrightarrow> silent c (emit c' ev err now s)"
  by (simp add: emit_def silent_fold_invoke)

lemma silent_connect_begin: "silent c s \<Longrightarrow> silent c (snd (connect_begin s))"
proof -
  assume sil: "silent c s"
  then have c: "c < length (clients s)" by (simp add: silent_def)
  with connect_begin_length [of s] have "c < length (clients (snd (connect_begin s)))" by simp
  with connect_begin_client [OF c] sil show ?thesis by (auto simp: silent_def)
qed

lemma silent_connect_resume: "silent c s \<Longrightarrow> silent c (connect_resume c' r s)"
proof (cases "c' = c")
  case True
  assume "silent c s"
  then show ?thesis by (simp add: True silent_def connect_resume_not_reading)
next
  case False
  assume "silent c s"
  with connect_resume_other [OF False, of r s] show ?thesis by (simp add: silent_def)
qed

lemma silent_disconnect: "silent c s \<Longrightarrow> silent c (disconnect s)"
proof -
  assume sil: "silent c s"
  then have c: "c < length (clients s)" by (simp add: silent_def)
  with disconnect_client [OF c] sil show ?thesis by (auto simp: silent_def)
qed

lemma silent_exec_begin: "silent c s \<Longrightarrow> silent c (exec_begin now s)"
  by (simp add: exec_begin_def Let_def silent_connect_begin)

lemma silent_fire_begin: "silent c s \<Longrightarrow> silent c (fire_begin t s)"
  by (cases "callback (timers s ! t)") (simp_all add: fire_begin_def silent_connect_begin)

lemma silent_segment: "segment a \<Longrightarrow> silent c s \<Longrightarrow> silent c (step a s)"
  by (cases a)
     (simp_all add: silent_disconnect silent_emit silent_connect_begin silent_connect_resume
        silent_exec_begin silent_fire_begin)

lemma silent_run: "silent c s \<Longrightarrow> silent c (run acts s)"
  by (rule run_invariant [of "silent c"]) (simp_all add: silent_segment)

lemma emit_silent: "silent c s \<Longrightarrow> emit c ev err now s = s"
  by (simp add: emit_def listeners_for_def silent_def)

section \<open>A client without long-lived listeners stays without\<close>

lemma unhooked_same_clients: "clients s' = clients s \<Longrightarrow> unhooked c s' = unhooked c s"
  by (simp add: unhooked_def)

lemma unhooked_fields [simp]:
  "unhooked c (scheduleReconnect now s) = unhooked c s"
  "unhooked c (s\<lparr>isConnected := b\<rparr>) = unhooked c s"
  "unhooked c (s\<lparr>lastActivity := t\<rparr>) = unhooked c s"
  "unhooked c (clearTimeout u s) = unhooked c s"
  "unhooked c (stream_step ch e s) = unhooked c s"
  "unhooked c (snd (exec_callback cmd tmo s)) = unhooked c s"
  "unhooked c (on_timeout ch s) = unhooked c s"
  by (simp_all add: unhooked_def)

lemma list_all_remove1: "list_all P xs \<Longrightarrow> list_all P (remove1 x xs)"
  by (induction xs) auto

lemma unhooked_removeListener: "unhooked c s \<Longrightarrow> unhooked c (removeListener c' ev l s)"
  by (cases "c' = c") (simp_all add: unhooked_def removeListener_def list_all_remove1)

lemma unhooked_cleanup: "unhooked c s \<Longrightarrow> unhooked c (cleanup c' s)"
  by (simp add: cleanup_def unhooked_removeListener)

lemma unhooked_settle_connect: "unhooked c s \<Longrightarrow> unhooked c (settle_connect c' r s)"
  by (cases "c' = c") (simp_all add: unhooked_def settle_connect_def)

lemma unhooked_invoke: "unhooked c s \<Longrightarrow> unhooked c (invoke c' ev err now l s)"
  by (cases l)
     (simp_all add: invoke_def unhooked_removeListener unhooked_cleanup unhooked_settle_connect)

lemma unhooked_fold_invoke: "unhooked c s \<Longrightarrow> unhooked c (fold (invoke c' ev err now) ls s)"
  by (induction ls arbitrary: s) (simp_all add: unhooked_invoke)

lemma unhooked_emit: "unhooked c s \<Longrightarrow> unhooked c (emit c' ev err now s)"
  by (simp add: emit_def unhooked_fold_invoke)

lemma unhooked_connect_begin: "unhooked c s \<Longrightarrow> unhooked c (snd (connect_begin s))"
proof -
  assume u: "unhooked c s"
  then have c: "c < length (clients s)" by (simp add: unhooked_def)
  with connect_begin_length [of s] have "c < length (clients (snd (connect_begin s)))" by simp
  with connect_begin_client [OF c] u show ?thesis by (auto simp: unhooked_def)
qed

lemma unhooked_connect_resume: "unhooked c s \<Longrightarrow> unhooked c (connect_resume c' r s)"
proof (cases "c' = c")
  case True
  assume "unhooked c s"
  then show ?thesis
    by (simp add: True unhooked_def connect_resume_def set_reading_def promise_executor_def
          open_transport_def addListener_def split: option.splits sum.splits)
next
  case False
  assume "unhooked c s"
  with connect_resume_other [OF False, of r s] show ?thesis by (simp add: unhooked_def)
qed

lemma unhooked_disconnect: "unhooked c s \<Longrightarrow> unhooked c (disconnect s)"
proof -
  assume u: "unhooked c s"
  then have c: "c < length (clients s)" by (simp add: unhooked_def)
  with disconnect_client [OF c] u show ?thesis by (auto simp: unhooked_def)
qed

lemma unhooked_exec_begin: "unhooked c s \<Longrightarrow> unhooked c (exec_begin now s)"
  by (simp add: exec_begin_def Let_def unhooked_connect_begin)

lemma unhooked_fire_begin: "unhooked c s \<Longrightarrow> unhooked c (fire_begin t s)"
  by (cases "callback (timers s ! t)") (simp_all add: fire_begin_def unhooked_connect_begin)

lemma unhooked_segment: "segment a \<Longrightarrow> unhooked c s \<Longrightarrow> unhooked c (step a s)"
  by (cases a)
     (simp_all add: unhooked_disconnect unhooked_emit unhooked_connect_begin unhooked_connect_resume
        unhooked_exec_begin unhooked_fire_begin)

lemma unhooked_run: "unhooked c s \<Longrightarrow> unhooked c (run acts s)"
  by (rule run_invariant [of "unhooked c"]) (simp_all add: unhooked_segment)

text \<open>The one-shot listeners arm no timer.\<close>

lemma once_invoke_timers:
  "is_once l \<Longrightarrow> timers (invoke c ev err now l s) = timers s
                 \<and> reconnectTimer (invoke c ev err now l s) = reconnectTimer s"
  by (cases l) (simp_all add: invoke_def)

lemma once_fold_invoke_timers:
  "list_all is_once ls \<Longrightarrow> timers (fold (invoke c ev err now) ls s) = timers s
                 \<and> reconnectTimer (fold (invoke c ev err now) ls s) = reconnectTimer s"
  by (induction ls arbitrary: s) (simp_all add: once_invoke_timers)

lemma unhooked_listeners: "unhooked c s \<Longrightarrow> list_all is_once (listeners_for c ev s)"
  by (auto simp: unhooked_def listeners_for_def list_all_iff)

lemma emit_unhooked:
  "unhooked c s \<Longrightarrow> timers (emit c ev err now s) = timers s
                 \<and> reconnectTimer (emit c ev err now s) = reconnectTimer s"
  by (simp add: emit_def once_fold_invoke_timers unhooked_listeners)

lemma disconnect_silences:
  "client s = Some c \<Longrightarrow> c < length (clients s) \<Longrightarrow> reading (clients s ! c) = None \<Longrightarrow>
   silent c (disconnect s)"
  by (simp add: disconnect_def Let_def silent_def end_client_def removeAllListeners_def
        clearTimeout_def split: option.splits)

lemma disconnect_unhooks:
  "client s = Some c \<Longrightarrow> c < length (clients s) \<Longrightarrow> unhooked c (disconnect s)"
  by (simp add: disconnect_def Let_def unhooked_def end_client_def removeAllListeners_def
        clearTimeout_def split: option.splits)

lemma disconnect_detaches:
  "client s = Some c \<Longrightarrow> c < length (clients s) \<Longrightarrow> listeners (clients (disconnect s) ! c) = []"
  by (simp add: disconnect_def Let_def end_client_def removeAllListeners_def
        clearTimeout_def split: option.splits)

lemma disconnect_ends:
  "client s = Some c \<Longrightarrow> c < length (clients s) \<Longrightarrow> ended (clients (disconnect s) ! c)"
  by (simp add: disconnect_def Let_def end_client_def removeAllListeners_def
        clearTimeout_def split: option.splits)

lemma disconnect_cancels:
  "reconnectTimer s = Some t \<Longrightarrow> \<not> is_pending t (disconnect s)"
  by (auto simp: disconnect_def Let_def end_client_def removeAllListeners_def is_pending_def
        clearTimeout_def upd_def split: option.splits)


section \<open>connect without a credential\<close>

lemma connect_no_credential:
  assumes "\<not> isConnected s" and "no_credential (config s)"
  shows "connect env s =
           (Some (Inl (JsError ''No auth method: need password or privateKeyPath'')),
            (detach_previous s)\<lparr>client := Some (length (clients s)),
               clients := clients (detach_previous s) @
                 [\<lparr>listeners = [(EvError, LostError), (EvEnd, LostEnd), (EvClose, LostClose)],
                   opened = None, ended = False, settled = None, reading = None\<rparr>]\<rparr>)"
  using assms
  by (simp add: connect_def connect_start_unfold Let_def addListener_def new_Client_def upd_def
        no_credential_def)

lemma connect_begin_no_credential:
  assumes "\<not> isConnected s" and "no_credential (config s)"
  shows "connect_begin s =
           (Finished (Inl (JsError ''No auth method: need password or privateKeyPath'')),
            snd (connect env s))"
  using assms
  by (simp add: connect_def connect_start_def connect_begin_def Let_def no_credential_def)

lemma never_opened_detach_previous: "never_opened s \<Longrightarrow> never_opened (detach_previous s)"
  by (auto simp: never_opened_def detach_previous_def end_client_def removeAllListeners_def upd_def
        list_all_length nth_list_update lost_only_def split: option.splits)

lemma never_opened_connect: "never_opened s \<Longrightarrow> never_opened (snd (connect env s))"
proof -
  assume n: "never_opened s"
  then have nc: "\<not> isConnected s" and cr: "no_credential (config s)"
    by (simp_all add: never_opened_def)
  from never_opened_detach_previous [OF n] show ?thesis
    by (simp add: connect_no_credential [OF nc cr] never_opened_def lost_only_def)
qed

lemma never_opened_connect_begin: "never_opened s \<Longrightarrow> never_opened (snd (connect_begin s))"
proof -
  assume n: "never_opened s"
  then have nc: "\<not> isConnected s" and cr: "no_credential (config s)"
    by (simp_all add: never_opened_def)
  fix env :: connect_env
  from never_opened_connect [OF n, of env] show ?thesis
    by (simp add: connect_begin_no_credential [OF nc cr, of env])
qed

lemma never_opened_connect_resume: "never_opened s \<Longrightarrow> connect_resume c r s = s"
  by (simp add: connect_resume_def never_opened_def list_all_length split: option.splits)

lemma never_opened_same:
  "clients s' = clients s \<Longrightarrow> config s' = config s \<Longrightarrow> isConnected s' = isConnected s \<Longrightarrow>
   never_opened s' = never_opened s"
  by (simp add: never_opened_def)

lemma never_opened_lastActivity [simp]: "never_opened (s\<lparr>lastActivity := t\<rparr>) = never_opened s"
  by (simp add: never_opened_def)

lemma never_opened_clearTimeout [simp]: "never_opened (clearTimeout t s) = never_opened s"
  by (simp add: never_opened_def clearTimeout_def)

lemma never_opened_lost:
  "never_opened s \<Longrightarrow> never_opened (scheduleReconnect now (s\<lparr>isConnected := False\<rparr>))"
  by (simp add: never_opened_def)

lemma never_opened_invoke:
  "never_opened s \<Longrightarrow> l \<in> {LostError, LostEnd, LostClose} \<Longrightarrow> never_opened (invoke c ev err now l s)"
  by (auto simp: invoke_def never_opened_lost)

lemma never_opened_fold_invoke:
  "never_opened s \<Longrightarrow> set ls \<subseteq> {LostError, LostEnd, LostClose} \<Longrightarrow>
   never_opened (fold (invoke c ev err now) ls s)"
  by (induction ls arbitrary: s) (simp_all add: never_opened_invoke)

lemma never_opened_listeners:
  "never_opened s \<Longrightarrow> set (listeners_for c ev s) \<subseteq> {LostError, LostEnd, LostClose}"
proof (cases "c < length (clients s)")
  case True
  assume "never_opened s"
  with True have "set (listeners (clients s ! c))
      \<subseteq> {(EvError, LostError), (EvEnd, LostEnd), (EvClose, LostClose)}"
    by (simp add: never_opened_def list_all_length lost_only_def)
  then have "snd ` set (listeners (clients s ! c)) \<subseteq> {LostError, LostEnd, LostClose}"
    by force
  then show ?thesis
    using True by (auto simp: listeners_for_def)
next
  case False
  then show ?thesis by (simp add: listeners_for_def)
qed

lemma never_opened_emit: "never_opened s \<Longrightarrow> never_opened (emit c ev err now s)"
  by (simp add: emit_def never_opened_fold_invoke never_opened_listeners)

lemma never_opened_disconnect: "never_opened s \<Longrightarrow> never_opened (disconnect s)"
  by (auto simp: never_opened_def disconnect_def Let_def end_client_def removeAllListeners_def
        clearTimeout_def upd_def list_all_length nth_list_update lost_only_def split: option.splits)

lemma stream_frame [simp]:
  "isConnected (on_data ch dat s) = isConnected s"
  "isConnected (on_stderr_data ch dat s) = isConnected s"
  "isConnected (on_close ch code now s) = isConnected s"
  "isConnected (on_timeout ch s) = isConnected s"
  "isConnected (clearTimeout t s) = isConnected s"
  "config (on_data ch dat s) = config s"
  "config (on_stderr_data ch dat s) = config s"
  "config (on_close ch code now s) = config s"
  "config (on_timeout ch s) = config s"
  "config (clearTimeout t s) = config s"
  by (simp_all add: on_data_def on_stderr_data_def on_close_def on_timeout_def settle_exec_def
        clearTimeout_def Let_def)

lemma stream_step_frame [simp]:
  "isConnected (stream_step ch e s) = isConnected s"
  "config (stream_step ch e s) = config s"
  by (cases e; simp)+

lemma never_opened_stream_step [simp]: "never_opened (stream_step ch e s) = never_opened s"
  by (simp add: never_opened_def)

lemma never_opened_on_timeout [simp]: "never_opened (on_timeout ch s) = never_opened s"
  by (simp add: never_opened_def)

lemma never_opened_exec: "never_opened s \<Longrightarrow> never_opened (snd (exec cmd env s))"
proof -
  assume n: "never_opened s"
  let ?s0 = "s\<lparr>lastActivity := called_at env\<rparr>"
  have n0: "never_opened ?s0" using n by simp
  then have nc: "\<not> isConnected ?s0" and cr: "no_credential (config ?s0)"
    by (simp_all add: never_opened_def)
  have "exec cmd env s =
          (Some (Inl (JsError ''No auth method: need password or privateKeyPath'')),
           snd (connect (connecting env) ?s0))"
    using nc
    by (simp add: exec_def exec_open_def ensure_connected_def connect_no_credential [OF nc cr])
  with never_opened_connect [OF n0] show ?thesis by simp
qed

lemma never_opened_fire: "never_opened s \<Longrightarrow> never_opened (snd (fire t env s))"
proof -
  assume n: "never_opened s"
  then have n1: "never_opened (clearTimeout t s)" by simp
  show ?thesis
  proof (cases "callback (timers s ! t)")
    case Reconnect
    with n never_opened_connect [OF n1] show ?thesis by (simp add: fire_def)
  next
    case (ExecTimeout ch)
    with n n1 show ?thesis by (simp add: fire_def)
  qed
qed

lemma never_opened_fire_begin: "never_opened s \<Longrightarrow> never_opened (fire_begin t s)"
proof -
  assume n: "never_opened s"
  then have n1: "never_opened (clearTimeout t s)" by simp
  show ?thesis
  proof (cases "callback (timers s ! t)")
    case Reconnect
    with n never_opened_connect_begin [OF n1] show ?thesis by (simp add: fire_begin_def)
  next
    case (ExecTimeout ch)
    with n n1 show ?thesis by (simp add: fire_begin_def)
  qed
qed

lemma never_opened_exec_begin: "never_opened s \<Longrightarrow> never_opened (exec_begin now s)"
proof -
  assume n: "never_opened s"
  then have n0: "never_opened (s\<lparr>lastActivity := now\<rparr>)" by simp
  then have "\<not> isConnected (s\<lparr>lastActivity := now\<rparr>)" by (simp add: never_opened_def)
  with never_opened_connect_begin [OF n0] show ?thesis
    by (simp add: exec_begin_def)
qed

lemma never_opened_channel_opens:
  "never_opened s \<Longrightarrow> never_opened (snd (exec_callback cmd tmo s))"
proof -
  have "never_opened (snd (exec_callback cmd tmo s)) = never_opened s"
    by (rule never_opened_same) (simp_all add: exec_callback_def setTimeout_def Let_def)
  then show "never_opened s \<Longrightarrow> never_opened (snd (exec_callback cmd tmo s))" by simp
qed

lemma never_opened_step: "never_opened s \<Longrightarrow> never_opened (step a s)"
  by (cases a)
     (simp_all add: never_opened_connect never_opened_exec never_opened_disconnect
        never_opened_emit never_opened_fire never_opened_connect_begin
        never_opened_connect_resume never_opened_exec_begin never_opened_channel_opens
        never_opened_fire_begin)

lemma never_opened_run: "never_opened s \<Longrightarrow> never_opened (run acts s)"
  unfolding run_def by (induction acts arbitrary: s) (simp_all add: never_opened_step)

lemma never_opened_new:
  "no_credential cfg \<Longrightarrow> never_opened (new_SSHConnection cfg tmo t0)"
  by (simp add: never_opened_def new_SSHConnection_def)

text \<open>
  C6. A session built from a descriptor in which neither \<open>privateKeyPath\<close> nor
  \<open>password\<close> is usable (not set, or empty), after any history: \<open>connect\<close>
  rejects with the error \<open>No auth method: need password or privateKeyPath\<close>; no
  client of the session has opened a transport, before or during the call; and the call
  does not depend on the environment, so it reads no file and waits for no transport.
\<close>

theorem connect_without_credential:
  assumes "no_credential cfg"
  shows "fst (connect env (run acts (new_SSHConnection cfg tmo t0))) =
           Some (Inl (JsError ''No auth method: need password or privateKeyPath''))
       \<and> list_all (\<lambda>x. opened x = None)
           (clients (snd (connect env (run acts (new_SSHConnection cfg tmo t0)))))
       \<and> connect env (run acts (new_SSHConnection cfg tmo t0)) =
           connect env' (run acts (new_SSHConnection cfg tmo t0))"
proof -
  let ?s = "run acts (new_SSHConnection cfg tmo t0)"
  have n: "never_opened ?s"
    using assms by (intro never_opened_run never_opened_new)
  then have nc: "\<not> isConnected ?s" and cr: "no_credential (config ?s)"
    by (simp_all add: never_opened_def)
  have "list_all (\<lambda>x. opened x = None) (clients (snd (connect env ?s)))"
    using never_opened_connect [OF n, of env] by (simp add: never_opened_def list_all_iff)
  then show ?thesis
    by (simp add: connect_no_credential [OF nc cr])
qed

theorem connect_without_credential_witness:
  "no_credential demo_no_auth
   \<and> fst (connect demo_ready
          (run [CallExec ''ls'' demo_stderr_only, TransportEmits 0 EvClose (JsError []) 7]
             (new_SSHConnection demo_no_auth None 0))) =
       Some (Inl (JsError ''No auth method: need password or privateKeyPath''))
   \<and> list_all (\<lambda>x. opened x = None)
       (clients (snd (connect demo_ready
          (run [CallExec ''ls'' demo_stderr_only, TransportEmits 0 EvClose (JsError []) 7]
             (new_SSHConnection demo_no_auth None 0)))))"
proof -
  have h1: "no_credential demo_no_auth"
    by (simp add: no_credential_def demo_no_auth_def demo_config_def)
  from connect_without_credential [OF h1, of demo_ready
      "[CallExec ''ls'' demo_stderr_only, TransportEmits 0 EvClose (JsError []) 7]" None 0 demo_ready] h1
  show ?thesis by blast
qed

section \<open>scheduleReconnect\<close>

lemma reconnect_pending_clearTimeout:
  "reconnect_pending t (clearTimeout u s) = (reconnect_pending t s \<and> t \<noteq> u)"
  by (auto simp: reconnect_pending_def is_pending_def clearTimeout_def upd_def nth_list_update)

lemma reconnect_pending_bound: "reconnect_pending t s \<Longrightarrow> t < length (timers s)"
  by (simp add: reconnect_pending_def is_pending_def)

lemma one_reconnect_timer_alt:
  "one_reconnect_timer s =
     ((\<forall>t. reconnectTimer s = Some t \<longrightarrow> t < length (timers s))
      \<and> (\<forall>t. reconnect_pending t s \<longrightarrow> reconnectTimer s = Some t))"
proof -
  have a: "(case reconnectTimer s of Some t \<Rightarrow> t < length (timers s) | None \<Rightarrow> True) =
           (\<forall>t. reconnectTimer s = Some t \<longrightarrow> t < length (timers s))"
    by (cases "reconnectTimer s") simp_all
  have b: "(\<forall>t \<in> {0..<length (timers s)}. reconnect_pending t s \<longrightarrow> reconnectTimer s = Some t) =
           (\<forall>t. reconnect_pending t s \<longrightarrow> reconnectTimer s = Some t)"
    using reconnect_pending_bound [of _ s] by fastforce
  show ?thesis
    unfolding one_reconnect_timer_def a b ..
qed

lemma one_reconnect_timer_same:
  "timers s' = timers s \<Longrightarrow> reconnectTimer s' = reconnectTimer s \<Longrightarrow>
   one_reconnect_timer s' = one_reconnect_timer s"
  by (simp add: one_reconnect_timer_alt reconnect_pending_def is_pending_def)

lemma one_reconnect_timer_clearTimeout:
  "one_reconnect_timer s \<Longrightarrow> one_reconnect_timer (clearTimeout u s)"
  unfolding one_reconnect_timer_alt reconnect_pending_clearTimeout
  by (simp add: clearTimeout_def)

lemma one_reconnect_timer_new: "one_reconnect_timer (new_SSHConnection cfg tmo t0)"
  by (simp add: one_reconnect_timer_def new_SSHConnection_def)

lemma no_reconnect_after_clear:
  assumes "one_reconnect_timer s" and "reconnectTimer s = Some u"
  shows "\<not> reconnect_pending t (clearTimeout u s)"
  using assms by (auto simp: one_reconnect_timer_alt reconnect_pending_clearTimeout)

lemma no_reconnect_without_handle:
  assumes "one_reconnect_timer s" and "reconnectTimer s = None"
  shows "\<not> reconnect_pending t s"
  using assms by (auto simp: one_reconnect_timer_alt)

text \<open>After the first statement of \<open>scheduleReconnect\<close> no reconnect timer is pending.\<close>

lemma cleared_no_reconnect:
  assumes "one_reconnect_timer s"
  shows "\<not> reconnect_pending t (case reconnectTimer s of Some u \<Rightarrow> clearTimeout u s | None \<Rightarrow> s)"
  using assms no_reconnect_after_clear no_reconnect_without_handle
  by (cases "reconnectTimer s") auto

lemma reconnect_pending_append:
  "reconnect_pending t (s\<lparr>timers := timers s @ [x]\<rparr>) =
     (if t < length (timers s) then reconnect_pending t s
      else t = length (timers s) \<and> pending x \<and> callback x = Reconnect)"
  by (auto simp: reconnect_pending_def is_pending_def nth_append)

lemma clearTimeout_frame [simp]:
  "length (timers (clearTimeout t s)) = length (timers s)"
  "reconnectTimer (clearTimeout t s) = reconnectTimer s"
  "lastActivity (clearTimeout t s) = lastActivity s"
  "client (clearTimeout t s) = client s"
  "channels (clearTimeout t s) = channels s"
  "commandTimeout (clearTimeout t s) = commandTimeout s"
  by (simp_all add: clearTimeout_def)

lemma one_reconnect_timer_arm:
  assumes none: "\<And>t. \<not> reconnect_pending t s1"
  shows "one_reconnect_timer
           (s1\<lparr>timers := timers s1 @ [\<lparr>delay = 5000, callback = Reconnect, pending = True\<rparr>],
               reconnectTimer := Some (length (timers s1))\<rparr>)"
  unfolding one_reconnect_timer_alt
proof (intro conjI allI impI)
  fix t
  assume "reconnectTimer (s1\<lparr>timers := timers s1 @ [\<lparr>delay = 5000, callback = Reconnect, pending = True\<rparr>],
               reconnectTimer := Some (length (timers s1))\<rparr>) = Some t"
  then show "t < length (timers (s1\<lparr>timers := timers s1 @ [\<lparr>delay = 5000, callback = Reconnect, pending = True\<rparr>],
               reconnectTimer := Some (length (timers s1))\<rparr>))"
    by simp
next
  fix t
  assume p: "reconnect_pending t (s1\<lparr>timers := timers s1 @ [\<lparr>delay = 5000, callback = Reconnect, pending = True\<rparr>],
               reconnectTimer := Some (length (timers s1))\<rparr>)"
  have "t = length (timers s1)"
  proof (rule ccontr)
    assume ne: "t \<noteq> length (timers s1)"
    with p have "t < length (timers s1)"
      by (simp add: reconnect_pending_def is_pending_def)
    with p have "reconnect_pending t s1"
      by (simp add: reconnect_pending_def is_pending_def nth_append)
    with none show False by simp
  qed
  then show "reconnectTimer (s1\<lparr>timers := timers s1 @ [\<lparr>delay = 5000, callback = Reconnect, pending = True\<rparr>],
               reconnectTimer := Some (length (timers s1))\<rparr>) = Some t"
    by simp
qed

lemma scheduleReconnect_cases:
  "scheduleReconnect now s =
     (let s1 = (case reconnectTimer s of Some u \<Rightarrow> clearTimeout u s | None \<Rightarrow> s)
      in if now - lastActivity s < 30 * 60 * 1000
         then s1\<lparr>timers := timers s1 @ [\<lparr>delay = 5000, callback = Reconnect, pending = True\<rparr>],
                 reconnectTimer := Some (length (timers s1))\<rparr>
         else s1)"
  by (simp add: scheduleReconnect_def setTimeout_def Let_def split: option.splits)

lemma one_reconnect_timer_scheduleReconnect:
  assumes "one_reconnect_timer s"
  shows "one_reconnect_timer (scheduleReconnect now s)"
proof -
  define s1 where "s1 = (case reconnectTimer s of Some u \<Rightarrow> clearTimeout u s | None \<Rightarrow> s)"
  have none: "\<And>t. \<not> reconnect_pending t s1"
    unfolding s1_def using assms by (rule cleared_no_reconnect)
  have ok1: "one_reconnect_timer s1"
    unfolding s1_def using assms
    by (cases "reconnectTimer s") (simp_all add: one_reconnect_timer_clearTimeout)
  show ?thesis
  proof (cases "now - lastActivity s < 30 * 60 * 1000")
    case True
    then have "scheduleReconnect now s =
        s1\<lparr>timers := timers s1 @ [\<lparr>delay = 5000, callback = Reconnect, pending = True\<rparr>],
             reconnectTimer := Some (length (timers s1))\<rparr>"
      by (simp add: scheduleReconnect_cases s1_def Let_def)
    with one_reconnect_timer_arm [OF none] show ?thesis by simp
  next
    case False
    then have "scheduleReconnect now s = s1"
      by (simp add: scheduleReconnect_cases s1_def Let_def)
    with ok1 show ?thesis by simp
  qed
qed

lemma ort_detach_previous [simp]: "one_reconnect_timer (detach_previous s) = one_reconnect_timer s"
  by (rule one_reconnect_timer_same) simp_all

lemma ort_client_update [simp]:
  "one_reconnect_timer (s\<lparr>client := k\<rparr>) = one_reconnect_timer s"
  "one_reconnect_timer (s\<lparr>clients := cs\<rparr>) = one_reconnect_timer s"
  "one_reconnect_timer (s\<lparr>isConnected := b\<rparr>) = one_reconnect_timer s"
  "one_reconnect_timer (s\<lparr>lastActivity := t\<rparr>) = one_reconnect_timer s"
  "one_reconnect_timer (s\<lparr>channels := chs\<rparr>) = one_reconnect_timer s"
  by (rule one_reconnect_timer_same; simp)+

lemma ort_invoke: "one_reconnect_timer s \<Longrightarrow> one_reconnect_timer (invoke c ev err now l s)"
proof (cases l)
  case OnReady
  assume "one_reconnect_timer s"
  then show ?thesis
    unfolding OnReady invoke_def
    by (subst one_reconnect_timer_same [of _ s]) simp_all
next
  case OnError
  assume "one_reconnect_timer s"
  then show ?thesis
    unfolding OnError invoke_def
    by (subst one_reconnect_timer_same [of _ s]) simp_all
qed (simp_all add: invoke_def one_reconnect_timer_scheduleReconnect)

lemma ort_fold_invoke:
  "one_reconnect_timer s \<Longrightarrow> one_reconnect_timer (fold (invoke c ev err now) ls s)"
  by (induction ls arbitrary: s) (simp_all add: ort_invoke)

lemma ort_emit: "one_reconnect_timer s \<Longrightarrow> one_reconnect_timer (emit c ev err now s)"
  by (simp add: emit_def ort_fold_invoke)

lemma no_reconnect_disconnect:
  assumes "one_reconnect_timer s"
  shows "\<not> reconnect_pending t (disconnect s)"
proof -
  have "reconnect_pending t (disconnect s) =
        reconnect_pending t (case reconnectTimer s of Some u \<Rightarrow> clearTimeout u s | None \<Rightarrow> s)"
    by (simp add: reconnect_pending_def is_pending_def disconnect_def Let_def clearTimeout_def
          end_client_def removeAllListeners_def split: option.splits)
  with cleared_no_reconnect [OF assms] show ?thesis by simp
qed

lemma ort_disconnect: "one_reconnect_timer s \<Longrightarrow> one_reconnect_timer (disconnect s)"
  using no_reconnect_disconnect [of s] by (simp add: one_reconnect_timer_alt)

lemma ort_settle_exec [simp]: "one_reconnect_timer (settle_exec ch r s) = one_reconnect_timer s"
  by (rule one_reconnect_timer_same) (simp_all add: settle_exec_def)

lemma ort_on_data [simp]:
  "one_reconnect_timer (on_data ch dat s) = one_reconnect_timer s"
  "one_reconnect_timer (on_stderr_data ch dat s) = one_reconnect_timer s"
  "one_reconnect_timer (on_timeout ch s) = one_reconnect_timer s"
  by (rule one_reconnect_timer_same; simp add: on_data_def on_stderr_data_def on_timeout_def
        settle_exec_def Let_def)+

lemma ort_on_close: "one_reconnect_timer s \<Longrightarrow> one_reconnect_timer (on_close ch code now s)"
  by (simp add: on_close_def Let_def one_reconnect_timer_clearTimeout)

lemma ort_stream_step: "one_reconnect_timer s \<Longrightarrow> one_reconnect_timer (stream_step ch e s)"
  by (cases e) (simp_all add: ort_on_close one_reconnect_timer_clearTimeout)

lemma ort_run_stream: "one_reconnect_timer s \<Longrightarrow> one_reconnect_timer (run_stream ch evs s)"
  unfolding run_stream_def by (induction evs arbitrary: s) (simp_all add: ort_stream_step)

lemma ort_exec_callback:
  assumes "one_reconnect_timer s"
  shows "one_reconnect_timer (snd (exec_callback cmd tmo s))"
proof -
  have t: "timers (snd (exec_callback cmd tmo s)) =
             timers s @ [\<lparr>delay = tmo, callback = ExecTimeout (length (channels s)), pending = True\<rparr>]"
    and r: "reconnectTimer (snd (exec_callback cmd tmo s)) = reconnectTimer s"
    by (simp_all add: exec_callback_def setTimeout_def Let_def)
  have p: "\<And>t. reconnect_pending t (snd (exec_callback cmd tmo s)) = reconnect_pending t s"
    by (auto simp: reconnect_pending_def is_pending_def t nth_append)
  from assms show ?thesis
    unfolding one_reconnect_timer_alt p r by (auto simp: t)
qed

lemma ort_connect_begin [simp]:
  "one_reconnect_timer (snd (connect_begin s)) = one_reconnect_timer s"
  by (rule one_reconnect_timer_same) simp_all

lemma ort_connect_resume [simp]:
  "one_reconnect_timer (connect_resume c r s) = one_reconnect_timer s"
  by (rule one_reconnect_timer_same) simp_all

lemma ort_exec_begin: "one_reconnect_timer (exec_begin now s) = one_reconnect_timer s"
  by (simp add: exec_begin_def Let_def)

lemma ort_fire_begin: "one_reconnect_timer s \<Longrightarrow> one_reconnect_timer (fire_begin t s)"
  by (cases "callback (timers s ! t)")
     (simp_all add: fire_begin_def one_reconnect_timer_clearTimeout)

lemma ort_segment: "segment a \<Longrightarrow> one_reconnect_timer s \<Longrightarrow> one_reconnect_timer (step a s)"
  by (cases a)
     (simp_all add: ort_disconnect ort_emit ort_stream_step ort_exec_begin ort_exec_callback
        ort_fire_begin)

lemma one_reconnect_timer_run: "one_reconnect_timer s \<Longrightarrow> one_reconnect_timer (run acts s)"
  by (rule run_invariant [of one_reconnect_timer]) (simp_all add: ort_segment)

text \<open>
  Every state a session reaches satisfies what the property of \<open>scheduleReconnect\<close>
  asks of the state it is invoked in.
\<close>

lemma reachable_timers: "one_reconnect_timer (run acts (new_SSHConnection cfg tmo t0))"
  by (simp add: one_reconnect_timer_run one_reconnect_timer_new)

lemma no_reconnect_pending_alt: "no_reconnect_pending s = (\<forall>t. \<not> reconnect_pending t s)"
  by (auto simp: no_reconnect_pending_def reconnect_pending_def is_pending_def list_all_length)

lemma nrp_clearTimeout: "no_reconnect_pending s \<Longrightarrow> no_reconnect_pending (clearTimeout t s)"
  by (simp add: no_reconnect_pending_alt reconnect_pending_clearTimeout)

lemma nrp_same: "timers s' = timers s \<Longrightarrow> no_reconnect_pending s' = no_reconnect_pending s"
  by (simp add: no_reconnect_pending_def)

lemma quiet_same: "clients s' = clients s \<Longrightarrow> quiet s' = quiet s"
  by (simp add: quiet_def)

lemma quiet_removeListener: "quiet s \<Longrightarrow> quiet (removeListener c ev l s)"
proof -
  assume q: "quiet s"
  have r: "OnReady \<notin> snd ` set (remove1 (ev, l) xs)" if "OnReady \<notin> snd ` set xs"
    for xs :: "(event \<times> listener) list"
  proof
    assume "OnReady \<in> snd ` set (remove1 (ev, l) xs)"
    then obtain a where "(a, OnReady) \<in> set (remove1 (ev, l) xs)" by force
    then have "(a, OnReady) \<in> set xs" using set_remove1_subset by fast
    then have "OnReady \<in> snd ` set xs" by force
    with that show False by simp
  qed
  from q show ?thesis
    by (simp add: quiet_def removeListener_def upd_def list_all_length nth_list_update r)
qed

lemma quiet_connect_resume: "quiet s \<Longrightarrow> connect_resume c r s = s"
  by (simp add: connect_resume_def quiet_def list_all_length)

lemma quiet_cleanup: "quiet s \<Longrightarrow> quiet (cleanup c s)"
  by (simp add: cleanup_def quiet_removeListener)

lemma quiet_settle_connect [simp]: "quiet (settle_connect c r s) = quiet s"
  by (auto simp: quiet_def settle_connect_def upd_def list_all_length nth_list_update)

lemma dormant_lost:
  assumes d: "dormant now s" and t: "now \<le> t"
  shows "dormant now (scheduleReconnect t (s\<lparr>isConnected := False\<rparr>))"
proof -
  let ?s = "s\<lparr>isConnected := False\<rparr>"
  have idle: "\<not> t - lastActivity ?s < 30 * 60 * 1000" using d t by (simp add: dormant_def)
  have n: "no_reconnect_pending ?s" using d by (simp add: dormant_def no_reconnect_pending_def)
  have "no_reconnect_pending (scheduleReconnect t ?s)"
    using n by (cases "reconnectTimer s") (simp_all add: scheduleReconnect_idle [OF idle] nrp_clearTimeout)
  then show ?thesis
    using d by (simp add: dormant_def quiet_def)
qed

lemma dormant_invoke:
  assumes d: "dormant now s" and t: "now \<le> t" and l: "l \<noteq> OnReady"
  shows "dormant now (invoke c ev err t l s)"
proof (cases l)
  case OnReady
  with l show ?thesis by simp
next
  case OnError
  have "quiet (cleanup c (removeListener c ev OnError s))"
    using d by (simp add: dormant_def quiet_cleanup quiet_removeListener)
  then show ?thesis
    using d by (simp add: OnError invoke_def dormant_def no_reconnect_pending_def)
qed (simp_all add: invoke_def dormant_lost [OF d t])

lemma dormant_fold_invoke:
  "dormant now s \<Longrightarrow> now \<le> t \<Longrightarrow> OnReady \<notin> set ls \<Longrightarrow>
   dormant now (fold (invoke c ev err t) ls s)"
proof (induction ls arbitrary: s)
  case Nil
  then show ?case by simp
next
  case (Cons l ls)
  from Cons.prems have "l \<noteq> OnReady" and rest: "OnReady \<notin> set ls" by auto
  with Cons.prems have "dormant now (invoke c ev err t l s)" by (simp add: dormant_invoke)
  from Cons.IH [OF this Cons.prems(2) rest] show ?case by simp
qed

lemma quiet_listeners: "quiet s \<Longrightarrow> OnReady \<notin> set (listeners_for c ev s)"
  by (auto simp: quiet_def listeners_for_def list_all_length)

lemma dormant_emit:
  assumes "dormant now s" and "now \<le> t"
  shows "dormant now (emit c ev err t s)"
proof -
  from assms(1) have "quiet s" by (simp add: dormant_def)
  then have "OnReady \<notin> set (listeners_for c ev s)" by (rule quiet_listeners)
  with assms show ?thesis
    unfolding emit_def by (rule dormant_fold_invoke)
qed

lemma dormant_same:
  "isConnected s' = isConnected s \<Longrightarrow> clients s' = clients s \<Longrightarrow> timers s' = timers s \<Longrightarrow>
   lastActivity s' = lastActivity s \<Longrightarrow> dormant now s' = dormant now s"
  by (simp add: dormant_def quiet_def no_reconnect_pending_def)

lemma dormant_clearTimeout: "dormant now s \<Longrightarrow> dormant now (clearTimeout t s)"
  by (simp add: dormant_def nrp_clearTimeout quiet_def)

lemma timers_frame [simp]:
  "timers (on_data ch dat s) = timers s"
  "timers (on_stderr_data ch dat s) = timers s"
  "timers (on_timeout ch s) = timers s"
  "timers (settle_exec ch r s) = timers s"
  "lastActivity (on_data ch dat s) = lastActivity s"
  "lastActivity (on_stderr_data ch dat s) = lastActivity s"
  "lastActivity (on_timeout ch s) = lastActivity s"
  "lastActivity (settle_exec ch r s) = lastActivity s"
  by (simp_all add: on_data_def on_stderr_data_def on_timeout_def settle_exec_def Let_def)

lemma dormant_on_timeout [simp]: "dormant now (on_timeout ch s) = dormant now s"
  by (rule dormant_same) simp_all

lemma dormant_fire:
  assumes d: "dormant now s"
  shows "dormant now (snd (fire t env s))"
proof (cases "is_pending t s")
  case False
  with d show ?thesis by (simp add: fire_def)
next
  case True
  from d have "\<not> reconnect_pending t s"
    by (simp add: dormant_def no_reconnect_pending_alt)
  with True obtain ch where cb: "callback (timers s ! t) = ExecTimeout ch"
    by (cases "callback (timers s ! t)") (simp_all add: reconnect_pending_def)
  from dormant_clearTimeout [OF d] True show ?thesis
    by (simp add: fire_def cb)
qed

lemma dormant_channel:
  assumes d: "dormant now s" and p: "is_passive now (ChannelEvent ch e)"
  shows "dormant now (stream_step ch e s)"
proof (cases e)
  case (Data x)
  have "dormant now (on_data ch x s) = dormant now s" by (rule dormant_same) simp_all
  with d show ?thesis by (simp add: Data)
next
  case (StderrData x)
  have "dormant now (on_stderr_data ch x s) = dormant now s" by (rule dormant_same) simp_all
  with d show ?thesis by (simp add: StderrData)
next
  case (Close code t)
  with p show ?thesis by simp
next
  case TimerFired
  from dormant_clearTimeout [OF d] d show ?thesis by (simp add: TimerFired)
qed

lemma quiet_fields [simp]:
  "quiet (s\<lparr>isConnected := b\<rparr>) = quiet s"
  "quiet (s\<lparr>lastActivity := t\<rparr>) = quiet s"
  "quiet (clearTimeout u s) = quiet s"
  "quiet (scheduleReconnect now s) = quiet s"
  by (simp_all add: quiet_def)

lemma quiet_disconnect: "quiet s \<Longrightarrow> quiet (disconnect s)"
  by (auto simp: quiet_def disconnect_def Let_def end_client_def removeAllListeners_def
        clearTimeout_def upd_def list_all_length nth_list_update split: option.splits)

lemma nrp_disconnect: "no_reconnect_pending s \<Longrightarrow> no_reconnect_pending (disconnect s)"
proof -
  assume n: "no_reconnect_pending s"
  have "\<not> reconnect_pending t (disconnect s)" for t
  proof -
    have "reconnect_pending t (disconnect s) =
          reconnect_pending t (case reconnectTimer s of Some u \<Rightarrow> clearTimeout u s | None \<Rightarrow> s)"
      by (simp add: reconnect_pending_def is_pending_def disconnect_def Let_def clearTimeout_def
            end_client_def removeAllListeners_def split: option.splits)
    with n show ?thesis
      by (cases "reconnectTimer s")
         (simp_all add: no_reconnect_pending_alt reconnect_pending_clearTimeout)
  qed
  then show ?thesis by (simp add: no_reconnect_pending_alt)
qed

lemma dormant_disconnect: "dormant now s \<Longrightarrow> dormant now (disconnect s)"
  by (simp add: dormant_def quiet_disconnect nrp_disconnect)

lemma dormant_channel_opens: "dormant now s \<Longrightarrow> dormant now (snd (exec_callback cmd tmo s))"
  by (simp add: dormant_def quiet_def no_reconnect_pending_def exec_callback_def setTimeout_def
        Let_def)

lemma dormant_fire_begin:
  assumes d: "dormant now s"
  shows "dormant now (fire_begin t s)"
proof (cases "is_pending t s")
  case False
  with d show ?thesis by (simp add: fire_begin_def)
next
  case True
  from d have "\<not> reconnect_pending t s"
    by (simp add: dormant_def no_reconnect_pending_alt)
  with True obtain ch where cb: "callback (timers s ! t) = ExecTimeout ch"
    by (cases "callback (timers s ! t)") (simp_all add: reconnect_pending_def)
  from dormant_clearTimeout [OF d] True show ?thesis
    by (simp add: fire_begin_def cb)
qed

lemma dormant_step:
  assumes d: "dormant now s" and p: "is_passive now a"
  shows "dormant now (step a s)"
proof (cases a)
  case CallDisconnect
  with d show ?thesis by (simp add: dormant_disconnect)
next
  case (TransportEmits c ev err t)
  with p have "now \<le> t" by simp
  with d show ?thesis by (simp add: TransportEmits dormant_emit)
next
  case (TimerFires t env)
  with d show ?thesis by (simp add: dormant_fire)
next
  case (ChannelEvent ch e)
  with d p show ?thesis by (simp add: dormant_channel)
next
  case (KeyRead c r)
  from d have "quiet s" by (simp add: dormant_def)
  with d show ?thesis by (simp add: KeyRead quiet_connect_resume)
next
  case (ChannelOpens cmd)
  with d show ?thesis by (simp add: dormant_channel_opens)
next
  case (TimerBegins t)
  with d show ?thesis by (simp add: dormant_fire_begin)
qed (use p in simp_all)

lemma dormant_run:
  "dormant now s \<Longrightarrow> list_all (is_passive now) acts \<Longrightarrow> dormant now (run acts s)"
  by (induction acts arbitrary: s) (simp_all add: dormant_step)

lemma unhandled_catch_ignore: "unhandled (catch_ignore p) = None"
  by (simp add: unhandled_def catch_ignore_def split: option.splits sum.splits)

text \<open>
  C5. \<open>scheduleReconnect\<close>, invoked in a state in which no reconnect timer other than
  the one the session refers to is pending (every state a session reaches is such a state).
  The timer the session referred to is not pending afterwards. If less than 30 minutes have
  passed since \<open>lastActivity\<close>, the session refers to a new timer of 5000 ms, which
  is the only pending reconnect timer; when it fires, \<open>connect\<close> is called, and no
  rejection is left unhandled, whatever the outcome of the call. Otherwise no reconnect
  timer is pending, no timer was added, and \<open>isConnected\<close> is as before. Then, if
  the session is not connected and no \<open>connect\<close> is in progress, it stays not
  connected and no reconnect timer becomes pending through every history of passive steps:
  whatever the transports emit from then on and whichever timers fire, as long as neither
  \<open>connect\<close> nor \<open>exec\<close> is called and no channel of an earlier
  \<open>exec\<close> closes.
\<close>

theorem scheduleReconnect_effect:
  assumes inv: "one_reconnect_timer s"
  shows "(case reconnectTimer s of
            Some t \<Rightarrow> \<not> is_pending t (scheduleReconnect now s)
          | None \<Rightarrow> True)
       \<and> (if now - lastActivity s < 30 * 60 * 1000
          then reconnectTimer (scheduleReconnect now s) = Some (length (timers s))
             \<and> timers (scheduleReconnect now s) ! length (timers s) =
                 \<lparr>delay = 5000, callback = Reconnect, pending = True\<rparr>
             \<and> (\<forall>t. reconnect_pending t (scheduleReconnect now s) = (t = length (timers s)))
             \<and> fire (length (timers s)) env (scheduleReconnect now s) =
                 (None, snd (connect env (clearTimeout (length (timers s)) (scheduleReconnect now s))))
             \<and> fire_begin (length (timers s)) (scheduleReconnect now s) =
                 snd (connect_begin (clearTimeout (length (timers s)) (scheduleReconnect now s)))
          else no_reconnect_pending (scheduleReconnect now s)
             \<and> length (timers (scheduleReconnect now s)) = length (timers s)
             \<and> isConnected (scheduleReconnect now s) = isConnected s
             \<and> (asleep s \<longrightarrow>
                  (\<forall>acts. list_all (is_passive now) acts \<longrightarrow>
                     \<not> isConnected (run acts (scheduleReconnect now s))
                   \<and> no_reconnect_pending (run acts (scheduleReconnect now s)))))"
proof -
  define s1 where "s1 = (case reconnectTimer s of Some u \<Rightarrow> clearTimeout u s | None \<Rightarrow> s)"
  have none: "\<And>t. \<not> reconnect_pending t s1"
    unfolding s1_def using inv by (rule cleared_no_reconnect)
  have len: "length (timers s1) = length (timers s)"
    by (simp add: s1_def split: option.splits)
  have bound: "\<And>t. reconnectTimer s = Some t \<Longrightarrow> t < length (timers s)"
    using inv by (simp add: one_reconnect_timer_alt)
  have prev: "case reconnectTimer s of
                Some t \<Rightarrow> \<not> is_pending t (scheduleReconnect now s)
              | None \<Rightarrow> True"
  proof (cases "reconnectTimer s")
    case None
    then show ?thesis by simp
  next
    case (Some t)
    from bound [OF Some] show ?thesis
      by (simp add: Some scheduleReconnect_cases Let_def is_pending_def clearTimeout_def nth_append)
  qed
  show ?thesis
  proof (cases "now - lastActivity s < 30 * 60 * 1000")
    case True
    then have eq: "scheduleReconnect now s =
        s1\<lparr>timers := timers s1 @ [\<lparr>delay = 5000, callback = Reconnect, pending = True\<rparr>],
             reconnectTimer := Some (length (timers s1))\<rparr>"
      by (simp add: scheduleReconnect_cases s1_def Let_def)
    have only: "reconnect_pending t (scheduleReconnect now s) = (t = length (timers s))" for t
      using none [of t] by (auto simp: eq reconnect_pending_def is_pending_def nth_append len)
    have fires: "fire (length (timers s)) env (scheduleReconnect now s) =
                 (None, snd (connect env (clearTimeout (length (timers s)) (scheduleReconnect now s))))"
      by (simp add: fire_def is_pending_def eq len unhandled_catch_ignore)
    have begins: "fire_begin (length (timers s)) (scheduleReconnect now s) =
                 snd (connect_begin (clearTimeout (length (timers s)) (scheduleReconnect now s)))"
      by (simp add: fire_begin_def is_pending_def eq len)
    from True prev only fires begins scheduleReconnect_armed [OF True] show ?thesis
      by simp
  next
    case False
    then have eq: "scheduleReconnect now s = s1"
      by (simp add: scheduleReconnect_cases s1_def Let_def)
    have nrp: "no_reconnect_pending s1" using none by (simp add: no_reconnect_pending_alt)
    have fr: "isConnected s1 = isConnected s" "clients s1 = clients s" "lastActivity s1 = lastActivity s"
      by (simp_all add: s1_def clearTimeout_def split: option.splits)
    have sleeps: "asleep s1" if "asleep s"
      using that by (simp add: asleep_def fr quiet_def)
    have stays: "\<not> isConnected (run acts s1) \<and> no_reconnect_pending (run acts s1)"
      if "asleep s" "list_all (is_passive now) acts" for acts
    proof -
      have "dormant now s1"
        using sleeps [OF that(1)] nrp False by (simp add: dormant_def fr asleep_def)
      from dormant_run [OF this that(2)] show ?thesis by (simp add: dormant_def)
    qed
    from False prev nrp len fr stays show ?thesis
      by (simp add: eq)
  qed
qed

text \<open>
  On the session of a pool whose connection was lost at time 5: invoked at time 6, the
  timer is armed, and when it fires and the transport refuses the connection, the
  \<open>connect\<close> of the callback rejects but the callback leaves no rejection unhandled.
  Invoked 30 minutes later, no timer is armed and the session stays as it is through a
  close event of its transport, a timer and a \<open>disconnect\<close>.
\<close>

theorem scheduleReconnect_effect_witness:
  "one_reconnect_timer demo_lost
   \<and> lastActivity demo_lost = 5
   \<and> reconnectTimer (scheduleReconnect 6 demo_lost) = Some 0
   \<and> timers (scheduleReconnect 6 demo_lost) ! 0 = \<lparr>delay = 5000, callback = Reconnect, pending = True\<rparr>
   \<and> fst (fire 0 demo_refused (scheduleReconnect 6 demo_lost)) = None
   \<and> fst (connect demo_refused (clearTimeout 0 (scheduleReconnect 6 demo_lost))) =
       Some (Inl (JsError ''refused''))
   \<and> unhandled (fst (connect demo_refused (clearTimeout 0 (scheduleReconnect 6 demo_lost)))) =
       Some (JsError ''refused'')
   \<and> no_reconnect_pending (scheduleReconnect 1800005 demo_lost)
   \<and> \<not> isConnected (run [TransportEmits 0 EvClose (JsError []) 1800006, TimerFires 0 demo_ready,
                         CallDisconnect]
                        (scheduleReconnect 1800005 demo_lost))"
proof -
  have h4: "timers demo_lost = []" by code_simp
  have h8: "reconnectTimer demo_lost = None" by code_simp
  have h1: "one_reconnect_timer demo_lost" by (simp add: one_reconnect_timer_def h4 h8)
  have h7: "lastActivity demo_lost = 5" by code_simp
  have h2: "6 - lastActivity demo_lost < 30 * 60 * 1000" by (simp add: h7)
  have h3: "\<not> 1800005 - lastActivity demo_lost < 30 * 60 * 1000" by (simp add: h7)
  have h5: "asleep demo_lost" by code_simp
  have h6: "list_all (is_passive 1800005)
              [TransportEmits 0 EvClose (JsError []) 1800006, TimerFires 0 demo_ready, CallDisconnect]"
    by simp
  have h9: "length (timers demo_lost) = 0" by (simp add: h4)
  have h10: "fst (connect demo_refused (clearTimeout 0 (scheduleReconnect 6 demo_lost))) =
       Some (Inl (JsError ''refused''))"
    by code_simp
  have h11: "unhandled (fst (connect demo_refused (clearTimeout 0 (scheduleReconnect 6 demo_lost)))) =
       Some (JsError ''refused'')"
    by (simp add: h10 unhandled_def)
  note a = scheduleReconnect_effect [OF h1, of 6 demo_refused, unfolded if_P [OF h2] h9]
  note b = scheduleReconnect_effect [OF h1, of 1800005 demo_refused, unfolded if_not_P [OF h3]]
  from a have a': "reconnectTimer (scheduleReconnect 6 demo_lost) = Some 0
     \<and> timers (scheduleReconnect 6 demo_lost) ! 0 = \<lparr>delay = 5000, callback = Reconnect, pending = True\<rparr>
     \<and> fst (fire 0 demo_refused (scheduleReconnect 6 demo_lost)) = None"
    by simp
  from b h5 h6 have b': "no_reconnect_pending (scheduleReconnect 1800005 demo_lost)
     \<and> \<not> isConnected (run [TransportEmits 0 EvClose (JsError []) 1800006, TimerFires 0 demo_ready,
                         CallDisconnect]
                        (scheduleReconnect 1800005 demo_lost))"
    by blast
  from a' b' h1 h7 h10 h11 show ?thesis by simp
qed

text \<open>
  The session does not always stay disconnected until the next call of \<open>exec\<close> or
  \<open>connect\<close>. A session with a command timeout of one hour connects at time 5 and
  starts a command. At time 1800005 the transport reports an error: the long-lived
  listener invokes \<open>scheduleReconnect\<close> on the session, idle for 30 minutes, and no
  timer is armed. Then the channel of the command closes, which refreshes
  \<open>lastActivity\<close>; the transport reports its close, and this time the reconnect
  timer is armed; it fires, and the session is connected again, with no call of
  \<open>exec\<close> or \<open>connect\<close> by a caller in between.
\<close>

theorem scheduleReconnect_idle_reconnects_counterexample:
  "\<not> 1800005 - lastActivity (demo_long_command\<lparr>isConnected := False\<rparr>) < 30 * 60 * 1000
   \<and> emit 0 EvError (JsError ''reset'') 1800005 demo_long_command =
       scheduleReconnect 1800005 (demo_long_command\<lparr>isConnected := False\<rparr>)
   \<and> no_reconnect_pending (scheduleReconnect 1800005 (demo_long_command\<lparr>isConnected := False\<rparr>))
   \<and> \<not> isConnected (scheduleReconnect 1800005 (demo_long_command\<lparr>isConnected := False\<rparr>))
   \<and> reconnect_pending 1
       (run [ChannelEvent 0 (Close None 1800006),
             TransportEmits 0 EvClose (JsError []) 1800007]
          (scheduleReconnect 1800005 (demo_long_command\<lparr>isConnected := False\<rparr>)))
   \<and> isConnected
       (run [ChannelEvent 0 (Close None 1800006),
             TransportEmits 0 EvClose (JsError []) 1800007,
             TimerFires 1 demo_ready]
          (scheduleReconnect 1800005 (demo_long_command\<lparr>isConnected := False\<rparr>)))"
  by code_simp

section \<open>disconnect\<close>

text \<open>
  C8. \<open>disconnect\<close> cancels the reconnect timer the session refers to, and the session
  refers to none afterwards; no reconnect timer at all is pending then, when none but the
  one referred to was pending before (as in every state a session reaches). The session is
  not connected and has no client. If it had a client, that client has no listener left and
  was ended. \<open>disconnect\<close> is idempotent. And whatever happens to the session after
  \<open>disconnect\<close>, in any order of the segments of the calls in progress and of
  later calls, an event that the detached transport emits later arms no timer and cancels
  none: the timers and the timer the session refers to are as before the event. The
  detached client never carries a long-lived listener again; it can only be given the two
  one-shot listeners, by a \<open>connect\<close> that was waiting for the key file when
  \<open>disconnect\<close> was called. If no \<open>connect\<close> was waiting so, the event
  runs no listener at all and leaves the session as it is; an error event is then one
  without a listener.
\<close>

theorem disconnect_tears_down:
  "(case reconnectTimer s of Some t \<Rightarrow> \<not> is_pending t (disconnect s) | None \<Rightarrow> True)
   \<and> reconnectTimer (disconnect s) = None
   \<and> (one_reconnect_timer s \<longrightarrow> no_reconnect_pending (disconnect s))
   \<and> \<not> isConnected (disconnect s)
   \<and> client (disconnect s) = None
   \<and> disconnect (disconnect s) = disconnect s
   \<and> (\<forall>c. client s = Some c \<and> c < length (clients s) \<longrightarrow>
          listeners (clients (disconnect s) ! c) = []
        \<and> ended (clients (disconnect s) ! c)
        \<and> (\<forall>acts ev err now.
              timers (emit c ev err now (run acts (disconnect s))) = timers (run acts (disconnect s))
            \<and> reconnectTimer (emit c ev err now (run acts (disconnect s))) =
                reconnectTimer (run acts (disconnect s)))
        \<and> (reading (clients s ! c) = None \<longrightarrow>
             (\<forall>acts ev err now.
                emit c ev err now (run acts (disconnect s)) = run acts (disconnect s)
              \<and> uncaught c EvError (run acts (disconnect s)))))"
proof -
  have canc: "case reconnectTimer s of Some t \<Rightarrow> \<not> is_pending t (disconnect s) | None \<Rightarrow> True"
    by (simp add: disconnect_cancels split: option.splits)
  have none: "one_reconnect_timer s \<longrightarrow> no_reconnect_pending (disconnect s)"
    by (simp add: no_reconnect_pending_alt no_reconnect_disconnect)
  have "listeners (clients (disconnect s) ! c) = []
        \<and> ended (clients (disconnect s) ! c)
        \<and> (\<forall>acts ev err now.
              timers (emit c ev err now (run acts (disconnect s))) = timers (run acts (disconnect s))
            \<and> reconnectTimer (emit c ev err now (run acts (disconnect s))) =
                reconnectTimer (run acts (disconnect s)))
        \<and> (reading (clients s ! c) = None \<longrightarrow>
             (\<forall>acts ev err now.
                emit c ev err now (run acts (disconnect s)) = run acts (disconnect s)
              \<and> uncaught c EvError (run acts (disconnect s))))"
    if cur: "client s = Some c" and ex: "c < length (clients s)" for c
  proof -
    have "unhooked c (disconnect s)" using cur ex by (rule disconnect_unhooks)
    then have "\<And>acts. unhooked c (run acts (disconnect s))" by (rule unhooked_run)
    then have no_timer: "\<And>acts ev err now.
        timers (emit c ev err now (run acts (disconnect s))) = timers (run acts (disconnect s))
        \<and> reconnectTimer (emit c ev err now (run acts (disconnect s))) =
            reconnectTimer (run acts (disconnect s))"
      by (rule emit_unhooked)
    have late: "reading (clients s ! c) = None \<longrightarrow>
             (\<forall>acts ev err now.
                emit c ev err now (run acts (disconnect s)) = run acts (disconnect s)
              \<and> uncaught c EvError (run acts (disconnect s)))"
    proof (intro impI allI)
      fix acts :: "action list" and ev :: event and err :: js_error and now :: int
      assume rd: "reading (clients s ! c) = None"
      have "silent c (disconnect s)" using cur ex rd by (rule disconnect_silences)
      then have sil: "silent c (run acts (disconnect s))" by (rule silent_run)
      then have "uncaught c EvError (run acts (disconnect s))"
        by (simp add: uncaught_def listeners_for_def silent_def)
      with emit_silent [OF sil, of ev err now]
      show "emit c ev err now (run acts (disconnect s)) = run acts (disconnect s)
              \<and> uncaught c EvError (run acts (disconnect s))"
        by simp
    qed
    from no_timer late disconnect_detaches [OF cur ex] disconnect_ends [OF cur ex]
    show ?thesis by blast
  qed
  with canc none show ?thesis
    by (simp add: disconnect_idem)
qed

text \<open>
  On a session whose first \<open>connect\<close> was refused, so that a reconnect timer is
  pending and the client carries the three long-lived listeners: after
  \<open>disconnect\<close> the timer is cancelled, and an error event of that client changes
  nothing, also after a later \<open>connect\<close> has begun and built another client.
\<close>

theorem disconnect_tears_down_witness:
  "client (sessions demo_failed_pool ! 0) = Some 0
   \<and> is_pending 0 (sessions demo_failed_pool ! 0)
   \<and> listeners (clients (sessions demo_failed_pool ! 0) ! 0) \<noteq> []
   \<and> \<not> is_pending 0 (disconnect (sessions demo_failed_pool ! 0))
   \<and> no_reconnect_pending (disconnect (sessions demo_failed_pool ! 0))
   \<and> listeners (clients (disconnect (sessions demo_failed_pool ! 0)) ! 0) = []
   \<and> ended (clients (disconnect (sessions demo_failed_pool ! 0)) ! 0)
   \<and> client (disconnect (sessions demo_failed_pool ! 0)) = None
   \<and> emit 0 EvError (JsError ''reset'') 9 (disconnect (sessions demo_failed_pool ! 0)) =
       disconnect (sessions demo_failed_pool ! 0)
   \<and> emit 0 EvError (JsError ''reset'') 9
         (run [ConnectBegins, CallConnect demo_ready] (disconnect (sessions demo_failed_pool ! 0))) =
       run [ConnectBegins, CallConnect demo_ready] (disconnect (sessions demo_failed_pool ! 0))
   \<and> timers (emit 0 EvClose (JsError []) 9
         (run [ConnectBegins] (disconnect (sessions demo_failed_pool ! 0)))) =
       timers (run [ConnectBegins] (disconnect (sessions demo_failed_pool ! 0)))"
proof -
  let ?s = "sessions demo_failed_pool ! 0"
  have h1: "client ?s = Some 0" by code_simp
  have h2: "0 < length (clients ?s)" by code_simp
  have h3: "listeners (clients ?s ! 0) \<noteq> []" by code_simp
  have h4: "run [] (disconnect ?s) = disconnect ?s" by simp
  have h5: "reconnectTimer ?s = Some 0" by code_simp
  have h6: "is_pending 0 ?s" by code_simp
  have h7: "timers ?s = [\<lparr>delay = 5000, callback = Reconnect, pending = True\<rparr>]" by code_simp
  have h8: "one_reconnect_timer ?s"
    by (simp add: one_reconnect_timer_def h5 h7 reconnect_pending_def is_pending_def)
  have h9: "reading (clients ?s ! 0) = None" by code_simp
  note t = disconnect_tears_down [of ?s, unfolded h5 option.case]
  from t h8 have a: "\<not> is_pending 0 (disconnect ?s) \<and> no_reconnect_pending (disconnect ?s)
      \<and> client (disconnect ?s) = None"
    by blast
  from t h1 h2 have b: "listeners (clients (disconnect ?s) ! 0) = []
      \<and> ended (clients (disconnect ?s) ! 0)
      \<and> (\<forall>acts ev err now.
              timers (emit 0 ev err now (run acts (disconnect ?s))) = timers (run acts (disconnect ?s)))"
    by blast
  from t h1 h2 h9 have b2:
     "\<forall>acts ev err now. emit 0 ev err now (run acts (disconnect ?s)) = run acts (disconnect ?s)"
    by blast
  from b2 have c: "emit 0 EvError (JsError ''reset'') 9 (run [] (disconnect ?s)) = run [] (disconnect ?s)"
    and d: "emit 0 EvError (JsError ''reset'') 9 (run [ConnectBegins, CallConnect demo_ready] (disconnect ?s)) =
            run [ConnectBegins, CallConnect demo_ready] (disconnect ?s)"
    by blast+
  from b have e: "timers (emit 0 EvClose (JsError []) 9 (run [ConnectBegins] (disconnect ?s))) =
       timers (run [ConnectBegins] (disconnect ?s))"
    by blast
  from a b c d e h1 h3 h4 h6 show ?thesis by simp
qed

text \<open>
  The case of a \<open>connect\<close> that waits for the key file when \<open>disconnect\<close> is
  called: when the file system answers, the call registers its one-shot listeners on the
  detached client and opens its transport; a \<open>ready\<close> of that transport then sets
  \<open>isConnected\<close> on the session, which has no client. No timer is armed.
\<close>

lemma ready_after_disconnect:
  "isConnected (run [ConnectBegins, CallDisconnect, KeyRead 0 (Inr ''key''),
                     TransportEmits 0 EvReady (JsError []) 9] demo_key_session)
   \<and> client (run [ConnectBegins, CallDisconnect, KeyRead 0 (Inr ''key''),
                  TransportEmits 0 EvReady (JsError []) 9] demo_key_session) = None
   \<and> timers (run [ConnectBegins, CallDisconnect, KeyRead 0 (Inr ''key''),
                  TransportEmits 0 EvReady (JsError []) 9] demo_key_session) = []"
  by code_simp


end
